theory Spec2Isabelle
  imports Complex_Main "HOL-Library.Log_Nat"
begin

section \<open>JavaScript strings\<close>

text \<open>
  The metrics module (\<^verbatim>\<open>src/metrics.ts\<close>) works on JavaScript strings with the built-in
  methods \<^verbatim>\<open>replace\<close>, \<^verbatim>\<open>startsWith\<close>, \<^verbatim>\<open>endsWith\<close>, \<^verbatim>\<open>includes\<close>, \<^verbatim>\<open>split\<close>,
  \<^verbatim>\<open>trim\<close> and \<^verbatim>\<open>toLowerCase\<close>. A string is modelled as a \<open>char list\<close>; a \<open>char\<close> stands
  for a code unit in the range U+0000 to U+00FF. The functions below follow ECMAScript on
  that range.
\<close>

definition startsWith :: "string \<Rightarrow> string \<Rightarrow> bool" where
  "startsWith s p = (take (length p) s = p)"

definition endsWith :: "string \<Rightarrow> string \<Rightarrow> bool" where
  "endsWith s p = (length p \<le> length s \<and> drop (length s - length p) s = p)"

text \<open>\<^verbatim>\<open>s.includes(p)\<close>: \<open>p\<close> occurs in \<open>s\<close> as a contiguous substring.\<close>

fun includes_str :: "string \<Rightarrow> string \<Rightarrow> bool" where
  "includes_str [] p = (p = [])"
| "includes_str (c # cs) p = (startsWith (c # cs) p \<or> includes_str cs p)"

text \<open>
  \<^verbatim>\<open>s.replace(pat, rep)\<close> with a string pattern: only the leftmost occurrence of \<open>pat\<close> is
  replaced. (The module's replacement strings are \<^verbatim>\<open>''\<close> and \<^verbatim>\<open>' '\<close>, which contain no
  \<^verbatim>\<open>$\<close> pattern.)
\<close>

fun replace :: "string \<Rightarrow> string \<Rightarrow> string \<Rightarrow> string" where
  "replace [] pat rep = (if pat = [] then rep else [])"
| "replace (c # cs) pat rep =
     (if startsWith (c # cs) pat then rep @ drop (length pat) (c # cs)
      else c # replace cs pat rep)"

text \<open>\<^verbatim>\<open>s.split(sep)\<close> for a one-character separator; the result is never empty.\<close>

fun split :: "string \<Rightarrow> char \<Rightarrow> string list" where
  "split [] sep = [[]]"
| "split (c # cs) sep =
     (if c = sep then [] # split cs sep
      else (let r = split cs sep in (c # hd r) # tl r))"

text \<open>
  White space and line terminators of ECMAScript below U+0100: TAB, LF, VT, FF, CR, SP and
  NBSP. \<^verbatim>\<open>trim\<close> and the regular-expression class \<^verbatim>\<open>\s\<close> use the same set.
\<close>

definition isSpace :: "char \<Rightarrow> bool" where
  "isSpace c = ((of_char c :: nat) \<in> {9, 10, 11, 12, 13, 32, 160})"

definition trim :: "string \<Rightarrow> string" where
  "trim s = rev (dropWhile isSpace (rev (dropWhile isSpace s)))"

text \<open>
  \<^verbatim>\<open>toLowerCase\<close> on the modelled range: A to Z, and the Latin-1 capitals U+00C0 to U+00DE
  except the multiplication sign U+00D7, move up by 32.
\<close>

definition lowerChar :: "char \<Rightarrow> char" where
  "lowerChar c =
     (let n = (of_char c :: nat) in
      if (65 \<le> n \<and> n \<le> 90) \<or> (192 \<le> n \<and> n \<le> 222 \<and> n \<noteq> 215) then char_of (n + 32) else c)"

definition toLowerCase :: "string \<Rightarrow> string" where
  "toLowerCase s = map lowerChar s"

section \<open>Requests and runs\<close>

text \<open>
  An HTTP GET as \<^verbatim>\<open>axios.get(url, {params, headers})\<close> issues it. A call resolves with the
  response data (\<open>Inr\<close>) or rejects with an error whose \<^verbatim>\<open>message\<close> is carried by \<open>Inl\<close>.
  The data of each endpoint has the shape the hosting API documents for it.
\<close>

record request =
  req_url :: string
  req_params :: "(string \<times> nat) list"
  req_headers :: "(string \<times> string) list"

text \<open>
  What a call of an exported operation does: the value its promise resolves with, the
  requests it issued, in order, and its calls of \<^verbatim>\<open>console.error\<close> and
  \<^verbatim>\<open>console.log\<close>, in order, each with the list of its arguments.
\<close>

record 'a run =
  returned :: 'a
  requests :: "request list"
  console :: "string list list"

type_synonym number = rat

definition GITHUB_API_URL :: string where
  "GITHUB_API_URL = ''https://api.github.com/repos''"

definition NPM_REGISTRY_URL :: string where
  "NPM_REGISTRY_URL = ''https://registry.npmjs.org/''"

definition PER_PAGE :: nat where
  "PER_PAGE = 100"

section \<open>Bus factor\<close>

text \<open>The request for one page of contributors (lines 20 to 26 of the module).\<close>

definition contributorsRequest :: "string \<Rightarrow> nat \<Rightarrow> request" where
  "contributorsRequest repoPath page =
     \<lparr>req_url = GITHUB_API_URL @ ''/'' @ repoPath @ ''/contributors'',
      req_params = [(''per_page'', PER_PAGE), (''page'', page)],
      req_headers = [(''Accept'', ''application/vnd.github.v3+json'')]\<rparr>"

text \<open>
  The \<^verbatim>\<open>while (true)\<close> loop of \<^verbatim>\<open>getBusFactor\<close> (lines 18 to 37). The loop has no bound of
  its own: against a server whose every page is full it never ends, which is the value
  \<open>None\<close>. A rejected request leaves the loop with the error (\<open>Inl\<close>); a short page leaves it
  with the total (\<open>Inr\<close>). \<open>sent\<close> records the requests issued so far.
\<close>

partial_function (option) contributorsLoop ::
  "(request \<Rightarrow> string + 'c list) \<Rightarrow> string \<Rightarrow> nat \<Rightarrow> nat \<Rightarrow> request list
     \<Rightarrow> ((string + nat) \<times> request list) option"
where
  "contributorsLoop axios_get repoPath totalContributors page sent =
     (case axios_get (contributorsRequest repoPath page) of
        Inl message \<Rightarrow> Some (Inl message, sent @ [contributorsRequest repoPath page])
      | Inr contributors \<Rightarrow>
          (if length contributors < PER_PAGE
           then Some (Inr (totalContributors + length contributors),
                      sent @ [contributorsRequest repoPath page])
           else contributorsLoop axios_get repoPath (totalContributors + length contributors)
                  (page + 1) (sent @ [contributorsRequest repoPath page])))"

text \<open>The step function of lines 40 to 61, on the total the loop computed.\<close>

definition busFactorScore :: "nat \<Rightarrow> number" where
  "busFactorScore totalContributors =
     (if totalContributors = 1 then 0.1
      else if totalContributors = 2 then 0.2
      else if totalContributors \<le> 4 then 0.3
      else if totalContributors \<le> 8 then 0.4
      else if totalContributors \<le> 16 then 0.5
      else if totalContributors \<le> 32 then 0.6
      else if totalContributors \<le> 64 then 0.7
      else if totalContributors \<le> 128 then 0.8
      else if totalContributors \<le> 256 then 0.9
      else 1.0)"

text \<open>
  \<^verbatim>\<open>getBusFactor\<close>: the repository path is the URL without its first
  \<^verbatim>\<open>https://github.com/\<close>; the loop starts with total 0 at page 1; whatever is thrown
  inside the \<^verbatim>\<open>try\<close> block is caught, passed to \<^verbatim>\<open>console.error\<close> behind the line that
  names the URL, and turned into -1.
\<close>

definition getBusFactor :: "(request \<Rightarrow> string + 'c list) \<Rightarrow> string \<Rightarrow> number run option" where
  "getBusFactor axios_get url =
     (let repoPath = replace url ''https://github.com/'' [] in
      case contributorsLoop axios_get repoPath 0 1 [] of
        None \<Rightarrow> None
      | Some (Inr totalContributors, sent) \<Rightarrow>
          Some \<lparr>returned = busFactorScore totalContributors, requests = sent, console = []\<rparr>
      | Some (Inl message, sent) \<Rightarrow>
          Some \<lparr>returned = - 1, requests = sent,
                console = [[''Error fetching contributors for GitHub repo '' @ url @ '':'', message]]\<rparr>)"

section \<open>Ramp-up\<close>

text \<open>
  The body of the \<^verbatim>\<open>for\<close> loop of \<^verbatim>\<open>countSlocAndCommentsLimited\<close> (lines 90 to 105), as a
  step on the three variables \<open>(sloc, comments, inBlockComment)\<close>.
\<close>

fun countLine :: "string \<Rightarrow> nat \<times> nat \<times> bool \<Rightarrow> nat \<times> nat \<times> bool" where
  "countLine line (sloc, comments, inBlockComment) =
     (let trimmedLine = trim line in
      if inBlockComment then
        (sloc, comments + 1, if endsWith trimmedLine ''*/'' then False else inBlockComment)
      else if startsWith trimmedLine ''//'' then (sloc, comments + 1, inBlockComment)
      else if startsWith trimmedLine ''/*'' then
        (sloc, comments + 1, \<not> endsWith trimmedLine ''*/'')
      else if length trimmedLine > 0 then (sloc + 1, comments, inBlockComment)
      else (sloc, comments, inBlockComment))"

record lineCounts =
  sloc :: nat
  comments :: nat

definition countSlocAndCommentsLimited :: "string \<Rightarrow> lineCounts" where
  "countSlocAndCommentsLimited fileContent =
     (let lines = take 100 (split fileContent CHR 0x0A) in
      case fold countLine lines (0, 0, False) of
        (codeLines, commentLines, inBlockComment) \<Rightarrow>
          \<lparr>sloc = codeLines, comments = commentLines\<rparr>)"

text \<open>
  The checkout that \<^verbatim>\<open>walkDirectoryLimited\<close> reads: a directory is the list of its entries
  in \<^verbatim>\<open>readdirSync\<close> order, an entry is a readable file with its text or a directory.
  The walk visits the entries in order, descends into directories, and calls the callback
  on every file whose name ends in \<^verbatim>\<open>.ts\<close> or \<^verbatim>\<open>.js\<close>; the function returns the texts the
  callback reads, in the order of the calls.
\<close>

datatype fsnode = File string | Directory "(string \<times> fsnode) list"

fun walkDirectoryLimited :: "(string \<times> fsnode) list \<Rightarrow> string list" where
  "walkDirectoryLimited [] = []"
| "walkDirectoryLimited ((file, Directory files) # rest) =
     walkDirectoryLimited files @ walkDirectoryLimited rest"
| "walkDirectoryLimited ((file, File fileContent) # rest) =
     (if endsWith file ''.ts'' \<or> endsWith file ''.js'' then [fileContent] else [])
       @ walkDirectoryLimited rest"

text \<open>
  JavaScript numbers are IEEE 754 doubles. The two totals are counts, which a double holds
  exactly below \<open>2 ^ 53\<close>, and \<^verbatim>\<open>/\<close> returns the double nearest to the quotient, a tie going
  to the even significand. \<open>roundHalfEven n d\<close> is the integer nearest to \<open>n / d\<close> under
  that rule. \<open>nearestDouble a b\<close> scales \<open>a / b\<close> by the power of two that brings it between
  \<open>2 ^ 52\<close> and \<open>2 ^ 53\<close>, rounds it to an integer significand of 53 bits, and scales back;
  for counts below \<open>2 ^ 53\<close> the exponent stays inside the normal range of a double. A
  double is represented by the rational number that is its value.
\<close>

definition roundHalfEven :: "int \<Rightarrow> int \<Rightarrow> int" where
  "roundHalfEven n d =
     (let q = n div d; r = n mod d in
      if 2 * r < d then q
      else if d < 2 * r then q + 1
      else if even q then q else q + 1)"

definition nearestDouble :: "nat \<Rightarrow> nat \<Rightarrow> rat" where
  "nearestDouble a b =
     (if a = 0 then 0
      else
        (let up = nat (52 + bitlen (int b) - bitlen (int a));
             down = nat (bitlen (int a) - (52 + bitlen (int b)));
             one = (if int a * 2 ^ up < int b * 2 ^ down * 2 ^ 52 then 1 else 0);
             significand = roundHalfEven (int a * 2 ^ (up + one)) (int b * 2 ^ down)
         in of_int significand * 2 ^ down / 2 ^ (up + one)))"

text \<open>
  The \<^verbatim>\<open>/\<close> of JavaScript on two counts: a positive count over zero is \<^verbatim>\<open>Infinity\<close>, zero
  over zero is \<^verbatim>\<open>NaN\<close>, anything over a positive count is the nearest double.
\<close>

datatype quotient = NaN | Infinity | Finite rat

definition divide_counts :: "nat \<Rightarrow> nat \<Rightarrow> quotient" where
  "divide_counts a b =
     (if b = 0 then (if a = 0 then NaN else Infinity) else Finite (nearestDouble a b))"

record rampUp = lineCounts +
  ratio :: quotient

text \<open>
  The callback of \<^verbatim>\<open>calculateRampUpMetric\<close> (lines 142 to 147) on the running totals
  \<open>(totalSloc, totalComments)\<close>.
\<close>

fun addFile :: "string \<Rightarrow> nat \<times> nat \<Rightarrow> nat \<times> nat" where
  "addFile fileContent (totalSloc, totalComments) =
     (let r = countSlocAndCommentsLimited fileContent in
      (totalSloc + sloc r, totalComments + comments r))"

text \<open>
  \<^verbatim>\<open>calculateRampUpMetric\<close> on the entries of the directory at \<^verbatim>\<open>localPath\<close>. After the
  walk and the division it looks for \<^verbatim>\<open>README.md\<close> among these entries
  (\<^verbatim>\<open>existsSync\<close> is true for a file and for a directory) and reads it with
  \<^verbatim>\<open>readFileSync\<close>. On a directory that call throws and nothing catches it: the promise is
  rejected with the error (\<open>Inl\<close>, its message). The text of a file goes to
  \<^verbatim>\<open>processReadme\<close>, which returns nothing and changes nothing, and the operation returns
  the totals and the ratio (\<open>Inr\<close>).
\<close>

definition calculateRampUpMetric :: "(string \<times> fsnode) list \<Rightarrow> string + rampUp" where
  "calculateRampUpMetric files =
     (case fold addFile (walkDirectoryLimited files) (0, 0) of
        (totalSloc, totalComments) \<Rightarrow>
          (case map_of files ''README.md'' of
             Some (Directory entries) \<Rightarrow> Inl ''EISDIR: illegal operation on a directory, read''
           | _ \<Rightarrow>
               Inr \<lparr>sloc = totalSloc, comments = totalComments,
                    ratio = divide_counts totalComments totalSloc\<rparr>))"

text \<open>The two totals over the files that the walk reads.\<close>

abbreviation totalCodeLines :: "(string \<times> fsnode) list \<Rightarrow> nat" where
  "totalCodeLines files \<equiv>
     sum_list (map (\<lambda>fileContent. sloc (countSlocAndCommentsLimited fileContent))
       (walkDirectoryLimited files))"

abbreviation totalCommentLines :: "(string \<times> fsnode) list \<Rightarrow> nat" where
  "totalCommentLines files \<equiv>
     sum_list (map (\<lambda>fileContent. comments (countSlocAndCommentsLimited fileContent))
       (walkDirectoryLimited files))"

section \<open>License compatibility\<close>

text \<open>
  \<^verbatim>\<open>isCompatibleWithLGPLv2_1\<close>: \<^verbatim>\<open>some\<close> over the allow-list; each name is looked for in
  lower case, as it is and with \<^verbatim>\<open>replace('-', ' ')\<close> applied to it.
\<close>

definition compatibleLicenses :: "string list" where
  "compatibleLicenses =
     [''LGPL-2.1'', ''LGPL-3.0'',
      ''GPL-2.0'', ''GPL-3.0'',
      ''MIT'', ''BSD-2-Clause'', ''BSD-3-Clause'',
      ''Apache-2.0'', ''ISC'', ''Unlicense'']"

definition isCompatibleWithLGPLv2_1 :: "string \<Rightarrow> bool" where
  "isCompatibleWithLGPLv2_1 licenseText =
     list_ex (\<lambda>license.
        includes_str (toLowerCase licenseText) (toLowerCase license) \<or>
        includes_str (toLowerCase licenseText) (replace (toLowerCase license) ''-'' '' ''))
       compatibleLicenses"

text \<open>
  \<^verbatim>\<open>extractLicenseFromReadme\<close> matches \<^verbatim>\<open>/#+\s*License\s*([\s\S]*?)(?=#+|$)/i\<close>.
  A match that starts at a given position reads a run of \<^verbatim>\<open>#\<close> (all of it: a shorter
  run is followed by \<^verbatim>\<open>#\<close>, which is neither white space nor a letter), white space, the
  seven letters in either case, white space again, and then captures lazily up to the first
  \<^verbatim>\<open>#\<close> or the end of the text. \<open>licenseHeadingAt\<close> is the capture of the match at the
  start of its argument, \<open>licenseHeading\<close> tries the positions from left to right.
\<close>

definition licenseHeadingAt :: "string \<Rightarrow> string option" where
  "licenseHeadingAt s =
     (if startsWith s ''#'' then
        (let afterHashes = dropWhile (\<lambda>c. c = CHR ''#'') s;
             afterSpace = dropWhile isSpace afterHashes
         in if toLowerCase (take 7 afterSpace) = ''license''
            then Some (takeWhile (\<lambda>c. c \<noteq> CHR ''#'') (dropWhile isSpace (drop 7 afterSpace)))
            else None)
      else None)"

fun licenseHeading :: "string \<Rightarrow> string option" where
  "licenseHeading [] = None"
| "licenseHeading (c # cs) =
     (case licenseHeadingAt (c # cs) of
        Some captured \<Rightarrow> Some captured
      | None \<Rightarrow> licenseHeading cs)"

definition extractLicenseFromReadme :: "string \<Rightarrow> string option" where
  "extractLicenseFromReadme content =
     (case licenseHeading content of Some captured \<Rightarrow> Some (trim captured) | None \<Rightarrow> None)"

text \<open>
  A parsed \<^verbatim>\<open>package.json\<close>: whatever \<^verbatim>\<open>JSON.parse\<close> returns. An object is the list of its
  properties.
\<close>

datatype json =
  JNull | JBool bool | JNum rat | JStr string | JArr "json list" | JObj "(string \<times> json) list"

text \<open>The values JavaScript takes for true in \<^verbatim>\<open>!x\<close>, \<^verbatim>\<open>x || y\<close> and \<^verbatim>\<open>if (x)\<close>.\<close>

fun truthy :: "json \<Rightarrow> bool" where
  "truthy JNull = False"
| "truthy (JBool b) = b"
| "truthy (JNum n) = (n \<noteq> 0)"
| "truthy (JStr s) = (s \<noteq> [])"
| "truthy (JArr xs) = True"
| "truthy (JObj kvs) = True"

text \<open>
  What the operation finds outside itself: the token of the process environment
  (\<^verbatim>\<open>undefined\<close> is \<open>None\<close>), the registry's answer for a package (the \<^verbatim>\<open>repository.url\<close>
  of the metadata, \<open>None\<close> where the metadata has none), the hosting API's answer for a
  file or the README (the \<^verbatim>\<open>content\<close> field, in base 64), the decoding
  \<^verbatim>\<open>Buffer.from(c, 'base64').toString('utf-8')\<close>, and \<^verbatim>\<open>JSON.parse\<close>, which returns a
  value or throws a syntax error.
\<close>

record world =
  GITHUB_TOKEN :: "string option"
  axios_get_package :: "request \<Rightarrow> string + string option"
  axios_get_content :: "request \<Rightarrow> string + string"
  base64_utf8 :: "string \<Rightarrow> string"
  JSON_parse :: "string \<Rightarrow> string + json"

record verdict =
  score :: number
  details :: string

definition licenseHeaders :: "string \<Rightarrow> (string \<times> string) list" where
  "licenseHeaders token =
     [(''Accept'', ''application/vnd.github.v3+json''),
      (''Authorization'', ''token '' @ token),
      (''User-Agent'', ''Your-App-Name'')]"

definition contentRequest :: "(string \<times> string) list \<Rightarrow> string \<Rightarrow> string \<Rightarrow> request" where
  "contentRequest headers repoPath resource =
     \<lparr>req_url = GITHUB_API_URL @ ''/'' @ repoPath @ ''/'' @ resource,
      req_params = [], req_headers = headers\<rparr>"

definition packageRequest :: "string \<Rightarrow> request" where
  "packageRequest packageName =
     \<lparr>req_url = NPM_REGISTRY_URL @ packageName, req_params = [], req_headers = []\<rparr>"

text \<open>
  The first part of the \<^verbatim>\<open>try\<close> block of \<^verbatim>\<open>checkLicenseCompatibility\<close> ends in one of
  three ways: it throws (the message), it returns from the operation (the verdict), or it
  goes on with a value.
\<close>

datatype 'a step = Throws string | Returns verdict | Continues 'a

text \<open>
  Lines 182 to 198: the repository path, with the request sent to the registry for an npm
  URL.
\<close>

definition resolveRepoPath :: "world \<Rightarrow> string \<Rightarrow> string step \<times> request list" where
  "resolveRepoPath w url =
     (if startsWith url ''https://www.npmjs.com/package/'' then
        (let packageName = replace url ''https://www.npmjs.com/package/'' [] in
         case axios_get_package w (packageRequest packageName) of
           Inl message \<Rightarrow> (Throws message, [packageRequest packageName])
         | Inr None \<Rightarrow>
             (Returns \<lparr>score = 0, details = ''No GitHub repository found for npm package''\<rparr>,
              [packageRequest packageName])
         | Inr (Some repositoryUrl) \<Rightarrow>
             (if repositoryUrl \<noteq> [] then
                (Continues
                   (replace (replace (replace (replace repositoryUrl
                      ''git+https://github.com/'' [])
                      ''git://github.com/'' [])
                      ''https://github.com/'' [])
                      ''.git'' []),
                 [packageRequest packageName])
              else
                (Returns \<lparr>score = 0, details = ''No GitHub repository found for npm package''\<rparr>,
                 [packageRequest packageName])))
      else (Continues (replace url ''https://github.com/'' []), []))"

text \<open>
  Lines 210 to 216, the inner \<^verbatim>\<open>try\<close> on \<^verbatim>\<open>package.json\<close>: the value left in
  \<^verbatim>\<open>licenseInfo\<close> and the console line of the \<^verbatim>\<open>catch\<close>. Reading \<^verbatim>\<open>.license\<close> of
  \<^verbatim>\<open>null\<close> throws; of an object it is the property; of any other value it is
  \<^verbatim>\<open>undefined\<close>.
\<close>

definition manifestLicense :: "world \<Rightarrow> request \<Rightarrow> json \<times> string list list" where
  "manifestLicense w req =
     (let notFound = (JStr [],
            [[''package.json not found or does not contain license information'']]) in
      case axios_get_content w req of
        Inl message \<Rightarrow> notFound
      | Inr content \<Rightarrow>
          (case JSON_parse w (base64_utf8 w content) of
             Inl message \<Rightarrow> notFound
           | Inr JNull \<Rightarrow> notFound
           | Inr (JObj properties) \<Rightarrow>
               (case map_of properties ''license'' of
                  Some license \<Rightarrow> (if truthy license then license else JStr [], [])
                | None \<Rightarrow> (JStr [], []))
           | Inr other \<Rightarrow> (JStr [], [])))"

text \<open>
  Lines 200 to 217: the \<^verbatim>\<open>LICENSE\<close> file, and \<^verbatim>\<open>package.json\<close> when the request for
  \<^verbatim>\<open>LICENSE\<close> is rejected.
\<close>

definition licenseFromFiles ::
  "world \<Rightarrow> (string \<times> string) list \<Rightarrow> string \<Rightarrow> json \<times> request list \<times> string list list"
where
  "licenseFromFiles w headers repoPath =
     (case axios_get_content w (contentRequest headers repoPath ''contents/LICENSE'') of
        Inr content \<Rightarrow>
          (JStr (base64_utf8 w content),
           [contentRequest headers repoPath ''contents/LICENSE''], [])
      | Inl message \<Rightarrow>
          (case manifestLicense w (contentRequest headers repoPath ''contents/package.json'') of
             (licenseInfo, logged) \<Rightarrow>
               (licenseInfo,
                [contentRequest headers repoPath ''contents/LICENSE'',
                 contentRequest headers repoPath ''contents/package.json''],
                logged)))"

text \<open>
  Lines 220 to 224: the README, read only when \<^verbatim>\<open>licenseInfo\<close> is not true. The request
  is outside the inner \<^verbatim>\<open>try\<close>: when it is rejected the error (\<open>Inl\<close>) leaves the block.
\<close>

definition licenseFromReadme ::
  "world \<Rightarrow> (string \<times> string) list \<Rightarrow> string \<Rightarrow> json \<Rightarrow> (string + json) \<times> request list" where
  "licenseFromReadme w headers repoPath licenseInfo =
     (if \<not> truthy licenseInfo then
        (case axios_get_content w (contentRequest headers repoPath ''readme'') of
           Inl message \<Rightarrow> (Inl message, [contentRequest headers repoPath ''readme''])
         | Inr content \<Rightarrow>
             (Inr (case extractLicenseFromReadme (base64_utf8 w content) of
                     Some section \<Rightarrow> JStr section
                   | None \<Rightarrow> JStr []),
              [contentRequest headers repoPath ''readme'']))
      else (Inr licenseInfo, []))"

text \<open>
  Lines 226 to 234: the verdict returned (\<open>Inr\<close>). A \<^verbatim>\<open>licenseInfo\<close> that is true but not a
  string (a \<^verbatim>\<open>license\<close> object of a manifest) has no \<^verbatim>\<open>toLowerCase\<close>, and the call throws
  (\<open>Inl\<close>).
\<close>

definition licenseVerdict :: "json \<Rightarrow> string + verdict" where
  "licenseVerdict licenseInfo =
     (if truthy licenseInfo then
        (case licenseInfo of
           JStr licenseText \<Rightarrow>
             (let compatible = isCompatibleWithLGPLv2_1 licenseText in
              Inr \<lparr>score = (if compatible then 1 else 0),
                   details = ''License found: '' @ hd (split licenseText CHR 0x0A)
                      @ ''. Compatible: '' @ (if compatible then ''true'' else ''false'')\<rparr>)
         | _ \<Rightarrow> Inl ''licenseText.toLowerCase is not a function'')
      else Inr \<lparr>score = 0, details = ''No license information found''\<rparr>)"

text \<open>
  The \<^verbatim>\<open>try\<close> block, lines 182 to 234: what it throws (\<open>Inl\<close>) or returns (\<open>Inr\<close>), what it
  sent, what it logged.
\<close>

definition licenseTry ::
  "world \<Rightarrow> (string \<times> string) list \<Rightarrow> string
     \<Rightarrow> (string + verdict) \<times> request list \<times> string list list"
where
  "licenseTry w headers url =
     (case resolveRepoPath w url of
        (Throws message, sent) \<Rightarrow> (Inl message, sent, [])
      | (Returns v, sent) \<Rightarrow> (Inr v, sent, [])
      | (Continues repoPath, sent) \<Rightarrow>
          (case licenseFromFiles w headers repoPath of
             (licenseInfo, sentFiles, logged) \<Rightarrow>
               (case licenseFromReadme w headers repoPath licenseInfo of
                  (Inl message, sentReadme) \<Rightarrow>
                    (Inl message, sent @ sentFiles @ sentReadme, logged)
                | (Inr licenseInfo', sentReadme) \<Rightarrow>
                    (licenseVerdict licenseInfo', sent @ sentFiles @ sentReadme, logged))))"

text \<open>
  \<^verbatim>\<open>checkLicenseCompatibility\<close>: the token guard of lines 170 to 173 (\<^verbatim>\<open>undefined\<close> and the
  empty string are not true), the \<^verbatim>\<open>try\<close> block, and the \<^verbatim>\<open>catch\<close> of lines 235 to 238.
\<close>

definition checkLicenseCompatibility :: "world \<Rightarrow> string \<Rightarrow> verdict run" where
  "checkLicenseCompatibility w url =
     (case GITHUB_TOKEN w of
        None \<Rightarrow>
          \<lparr>returned = \<lparr>score = 0, details = ''GitHub token not set''\<rparr>, requests = [], console = []\<rparr>
      | Some token \<Rightarrow>
          (if token = [] then
             \<lparr>returned = \<lparr>score = 0, details = ''GitHub token not set''\<rparr>,
              requests = [], console = []\<rparr>
           else
             (case licenseTry w (licenseHeaders token) url of
                (Inr v, sent, logged) \<Rightarrow>
                  \<lparr>returned = v, requests = sent, console = logged\<rparr>
              | (Inl message, sent, logged) \<Rightarrow>
                  \<lparr>returned = \<lparr>score = 0, details = ''Error checking license: '' @ message\<rparr>,
                   requests = sent,
                   console = logged @ [[''Error checking license: '' @ message]]\<rparr>)))"

section \<open>Example worlds\<close>

text \<open>
  Worlds for the examples below. The decoder knows the base 64 of six small files (the
  manifest \<^verbatim>\<open>{}\<close>, a manifest that declares the MIT license, a README with a section
  headed \<^verbatim>\<open>## LICENSE\<close>, a README without such a section, and two license files); the
  parser knows the two manifests.
\<close>

definition mitManifest :: string where
  "mitManifest =
     ''{'' @ [CHR 0x22] @ ''license'' @ [CHR 0x22] @ '':'' @ [CHR 0x22] @ ''MIT'' @ [CHR 0x22] @ ''}''"

definition example_base64_utf8 :: "string \<Rightarrow> string" where
  "example_base64_utf8 c =
     (if c = ''e30='' then ''{}''
      else if c = ''eyJsaWNlbnNlIjoiTUlUIn0='' then mitManifest
      else if c = ''IyBwa2cKCkEgcGFja2FnZS4KCiMjIExJQ0VOU0UKCkFwYWNoZS0yLjAK''
        then ''# pkg\<newline>\<newline>A package.\<newline>\<newline>## LICENSE\<newline>\<newline>Apache-2.0\<newline>''
      else if c = ''IyBwa2cKCkEgcGFja2FnZS4K'' then ''# pkg\<newline>\<newline>A package.\<newline>''
      else if c = ''QlNEIDIgQ2xhdXNlIExpY2Vuc2UK'' then ''BSD 2 Clause License\<newline>''
      else if c = ''TUlUIExpY2Vuc2UK'' then ''MIT License\<newline>''
      else [])"

definition example_JSON_parse :: "string \<Rightarrow> string + json" where
  "example_JSON_parse s =
     (if s = ''{}'' then Inr (JObj [])
      else if s = mitManifest then Inr (JObj [(''license'', JStr ''MIT'')])
      else Inl ''Unexpected end of JSON input'')"

text \<open>No token in the environment; the repository has an MIT license file.\<close>

definition worldWithoutToken :: world where
  "worldWithoutToken =
     \<lparr>GITHUB_TOKEN = None,
      axios_get_package = (\<lambda>r. Inl ''Request failed with status code 404''),
      axios_get_content = (\<lambda>r.
        if req_url r = ''https://api.github.com/repos/o/r/contents/LICENSE''
        then Inr ''TUlUIExpY2Vuc2UK'' else Inl ''Request failed with status code 404''),
      base64_utf8 = example_base64_utf8,
      JSON_parse = example_JSON_parse\<rparr>"


text \<open>
  A repository with no \<^verbatim>\<open>LICENSE\<close>, the manifest \<^verbatim>\<open>{}\<close>, and a README whose License
  section, headed in capitals, reads Apache-2.0.
\<close>

definition worldReadmeLicense :: world where
  "worldReadmeLicense =
     \<lparr>GITHUB_TOKEN = Some ''ghp_token'',
      axios_get_package = (\<lambda>r. Inl ''Request failed with status code 404''),
      axios_get_content = (\<lambda>r.
        if req_url r = ''https://api.github.com/repos/o/r/contents/package.json''
        then Inr ''e30=''
        else if req_url r = ''https://api.github.com/repos/o/r/readme''
        then Inr ''IyBwa2cKCkEgcGFja2FnZS4KCiMjIExJQ0VOU0UKCkFwYWNoZS0yLjAK''
        else Inl ''Request failed with status code 404''),
      base64_utf8 = example_base64_utf8,
      JSON_parse = example_JSON_parse\<rparr>"

text \<open>A repository with an empty \<^verbatim>\<open>LICENSE\<close> file and a README without a License section.\<close>

definition worldEmptyLicense :: world where
  "worldEmptyLicense =
     \<lparr>GITHUB_TOKEN = Some ''ghp_token'',
      axios_get_package = (\<lambda>r. Inl ''Request failed with status code 404''),
      axios_get_content = (\<lambda>r.
        if req_url r = ''https://api.github.com/repos/o/r/contents/LICENSE''
        then Inr []
        else if req_url r = ''https://api.github.com/repos/o/r/readme''
        then Inr ''IyBwa2cKCkEgcGFja2FnZS4K''
        else Inl ''Request failed with status code 404''),
      base64_utf8 = example_base64_utf8,
      JSON_parse = example_JSON_parse\<rparr>"


text \<open>A repository whose \<^verbatim>\<open>LICENSE\<close> file is the line \<^verbatim>\<open>BSD 2 Clause License\<close>.\<close>

definition worldBsdLicense :: world where
  "worldBsdLicense =
     \<lparr>GITHUB_TOKEN = Some ''ghp_token'',
      axios_get_package = (\<lambda>r. Inl ''Request failed with status code 404''),
      axios_get_content = (\<lambda>r.
        if req_url r = ''https://api.github.com/repos/o/r/contents/LICENSE''
        then Inr ''QlNEIDIgQ2xhdXNlIExpY2Vuc2UK''
        else Inl ''Request failed with status code 404''),
      base64_utf8 = example_base64_utf8,
      JSON_parse = example_JSON_parse\<rparr>"

section \<open>Outcomes of the license check\<close>

text \<open>The verdict of lines 227 to 231 on a license text.\<close>

abbreviation licenseFound :: "string \<Rightarrow> verdict" where
  "licenseFound licenseText \<equiv>
     \<lparr>score = (if isCompatibleWithLGPLv2_1 licenseText then 1 else 0),
      details = ''License found: '' @ hd (split licenseText CHR 0x0A) @ ''. Compatible: ''
        @ (if isCompatibleWithLGPLv2_1 licenseText then ''true'' else ''false'')\<rparr>"

text \<open>
  A run that is decided by the README alone, after the requests \<open>before\<close> and the console
  lines \<open>logged\<close>: the README is requested last; a rejected request gives the error
  verdict, a README with a non-empty License section gives the verdict on that section,
  and any other README gives \<^verbatim>\<open>No license information found\<close>.
\<close>

abbreviation decidedByReadme ::
  "world \<Rightarrow> string \<Rightarrow> string \<Rightarrow> request list \<Rightarrow> string list list \<Rightarrow> verdict run" where
  "decidedByReadme w token repoPath before logged \<equiv>
     (case axios_get_content w (contentRequest (licenseHeaders token) repoPath ''readme'') of
        Inl message \<Rightarrow>
          \<lparr>returned = \<lparr>score = 0, details = ''Error checking license: '' @ message\<rparr>,
           requests = before @ [contentRequest (licenseHeaders token) repoPath ''readme''],
           console = logged @ [[''Error checking license: '' @ message]]\<rparr>
      | Inr content \<Rightarrow>
          \<lparr>returned =
             (case extractLicenseFromReadme (base64_utf8 w content) of
                Some found \<Rightarrow>
                  (if found = [] then \<lparr>score = 0, details = ''No license information found''\<rparr>
                   else licenseFound found)
              | None \<Rightarrow> \<lparr>score = 0, details = ''No license information found''\<rparr>),
           requests = before @ [contentRequest (licenseHeaders token) repoPath ''readme''],
           console = logged\<rparr>)"


section \<open>The condition of the specification on a license text\<close>

text \<open>
  The specification's words for the compatibility test: the text contains, in lower case, a
  name of the allow-list, as it is or with its hyphens read as spaces.
\<close>

definition spec_containsAllowed :: "string \<Rightarrow> bool" where
  "spec_containsAllowed licenseText =
     list_ex (\<lambda>license.
        includes_str (toLowerCase licenseText) (toLowerCase license) \<or>
        includes_str (toLowerCase licenseText)
          (map (\<lambda>c. if c = CHR ''-'' then CHR '' '' else c) (toLowerCase license)))
       compatibleLicenses"

section \<open>Properties of the bus factor\<close>

text \<open>A run of full pages is read through: the loop goes on behind it.\<close>

lemma contributorsLoop_full_pages:
  assumes "\<forall>i<length full. axios_get (contributorsRequest repoPath (page + i)) = Inr (full ! i)
             \<and> PER_PAGE \<le> length (full ! i)"
  shows "contributorsLoop axios_get repoPath tot page sent =
         contributorsLoop axios_get repoPath (tot + length (concat full)) (page + length full)
           (sent @ map (contributorsRequest repoPath) [page..<page + length full])"
  using assms
proof (induction full arbitrary: tot page sent)
  case Nil
  then show ?case by simp
next
  case (Cons cs full)
  from Cons.prems have here: "axios_get (contributorsRequest repoPath page) = Inr cs"
    and full: "PER_PAGE \<le> length cs"
    by force+
  have rest: "\<forall>i<length full. axios_get (contributorsRequest repoPath (Suc page + i)) = Inr (full ! i)
             \<and> PER_PAGE \<le> length (full ! i)"
  proof (intro allI impI)
    fix i assume "i < length full"
    then have "Suc i < length (cs # full)" by simp
    with Cons.prems have "axios_get (contributorsRequest repoPath (page + Suc i)) = Inr ((cs # full) ! Suc i)
             \<and> PER_PAGE \<le> length ((cs # full) ! Suc i)" by blast
    then show "axios_get (contributorsRequest repoPath (Suc page + i)) = Inr (full ! i)
             \<and> PER_PAGE \<le> length (full ! i)" by simp
  qed
  have "contributorsLoop axios_get repoPath tot page sent =
        contributorsLoop axios_get repoPath (tot + length cs) (Suc page)
          (sent @ [contributorsRequest repoPath page])"
    using here full by (subst contributorsLoop.simps) simp
  also have "\<dots> = contributorsLoop axios_get repoPath (tot + length cs + length (concat full))
          (Suc page + length full)
          ((sent @ [contributorsRequest repoPath page]) @
             map (contributorsRequest repoPath) [Suc page..<Suc page + length full])"
    by (rule Cons.IH [OF rest])
  finally have unrolled: "contributorsLoop axios_get repoPath tot page sent =
        contributorsLoop axios_get repoPath (tot + length cs + length (concat full))
          (Suc page + length full)
          ((sent @ [contributorsRequest repoPath page]) @
             map (contributorsRequest repoPath) [Suc page..<Suc page + length full])" .
  have "[page..<page + Suc (length full)] = page # [Suc page..<page + Suc (length full)]"
    by (rule upt_conv_Cons) simp
  with unrolled show ?case
    by (simp add: add.assoc)
qed

text \<open>A short page and a rejected request both end the loop.\<close>

lemma contributorsLoop_short_page:
  assumes "axios_get (contributorsRequest repoPath page) = Inr cs" and "length cs < PER_PAGE"
  shows "contributorsLoop axios_get repoPath tot page sent =
         Some (Inr (tot + length cs), sent @ [contributorsRequest repoPath page])"
  using assms by (subst contributorsLoop.simps) simp

lemma contributorsLoop_rejected:
  assumes "axios_get (contributorsRequest repoPath page) = Inl message"
  shows "contributorsLoop axios_get repoPath tot page sent =
         Some (Inl message, sent @ [contributorsRequest repoPath page])"
  using assms by (subst contributorsLoop.simps) simp


text \<open>Full pages followed by a short one.\<close>

lemma fetch_all_pages:
  assumes nonempty: "pages \<noteq> []"
    and served: "\<forall>i<length pages. axios_get (contributorsRequest repoPath (i + 1)) = Inr (pages ! i)"
    and full: "\<forall>i<length pages - 1. \<not> length (pages ! i) < PER_PAGE"
    and short: "length (last pages) < PER_PAGE"
  shows "contributorsLoop axios_get repoPath 0 1 [] =
           Some (Inr (sum_list (map length pages)),
                 map (contributorsRequest repoPath) [1..<length pages + 1])"
proof -
  define init where "init = butlast pages"
  have pages: "pages = init @ [last pages]" and len: "length init = length pages - 1"
    using nonempty by (simp_all add: init_def)
  have a: "\<forall>i<length init. axios_get (contributorsRequest repoPath (1 + i)) = Inr (init ! i)
             \<and> PER_PAGE \<le> length (init ! i)"
  proof (intro allI impI)
    fix i assume i: "i < length init"
    then have "init ! i = pages ! i" by (simp add: init_def nth_butlast)
    moreover from i len have "i < length pages" "i < length pages - 1" by simp_all
    ultimately show "axios_get (contributorsRequest repoPath (1 + i)) = Inr (init ! i)
             \<and> PER_PAGE \<le> length (init ! i)"
      using served full by (simp add: not_less)
  qed
  have "length init < length pages" using nonempty len by (cases pages) simp_all
  then have "axios_get (contributorsRequest repoPath (length init + 1)) = Inr (pages ! length init)"
    using served by blast
  moreover have "pages ! length init = last pages"
    using nonempty len by (simp add: last_conv_nth)
  ultimately have b: "axios_get (contributorsRequest repoPath (1 + length init)) = Inr (last pages)"
    by simp
  have "contributorsLoop axios_get repoPath 0 1 [] =
        contributorsLoop axios_get repoPath (0 + length (concat init)) (1 + length init)
           ([] @ map (contributorsRequest repoPath) [1..<1 + length init])"
    by (rule contributorsLoop_full_pages [OF a])
  also have "\<dots> = Some (Inr (0 + length (concat init) + length (last pages)),
       ([] @ map (contributorsRequest repoPath) [1..<1 + length init]) @ [contributorsRequest repoPath (1 + length init)])"
    by (rule contributorsLoop_short_page
          [of axios_get repoPath "1 + length init" "last pages", OF b short])
  also have "\<dots> = Some (Inr (sum_list (map length pages)),
                 map (contributorsRequest repoPath) [1..<length pages + 1])"
  proof -
    have "sum_list (map length pages) = length (concat init) + length (last pages)"
      by (subst pages) (simp add: length_concat)
    moreover have "[1..<length pages + 1] = [1..<1 + length init] @ [1 + length init]"
      using nonempty len by (cases pages) simp_all
    ultimately show ?thesis by simp
  qed
  finally show ?thesis .
qed

text \<open>
  C1. The score of a total \<open>c\<close> is the step table: 1 gives 0.1, 2 gives 0.2, the rest up to 4
  (0, 3 and 4) gives 0.3, 5 to 8 gives 0.4, 9 to 16 gives 0.5, 17 to 32 gives 0.6, 33 to 64
  gives 0.7, 65 to 128 gives 0.8, 129 to 256 gives 0.9, and every larger total gives 1.0.
  In particular a total of 0 gives 0.3.
\<close>

theorem busFactorScore_step_table:
  "(c = 0 \<longrightarrow> busFactorScore c = 0.3) \<and>
   (c = 1 \<longrightarrow> busFactorScore c = 0.1) \<and>
   (c = 2 \<longrightarrow> busFactorScore c = 0.2) \<and>
   (3 \<le> c \<and> c \<le> 4 \<longrightarrow> busFactorScore c = 0.3) \<and>
   (5 \<le> c \<and> c \<le> 8 \<longrightarrow> busFactorScore c = 0.4) \<and>
   (9 \<le> c \<and> c \<le> 16 \<longrightarrow> busFactorScore c = 0.5) \<and>
   (17 \<le> c \<and> c \<le> 32 \<longrightarrow> busFactorScore c = 0.6) \<and>
   (33 \<le> c \<and> c \<le> 64 \<longrightarrow> busFactorScore c = 0.7) \<and>
   (65 \<le> c \<and> c \<le> 128 \<longrightarrow> busFactorScore c = 0.8) \<and>
   (129 \<le> c \<and> c \<le> 256 \<longrightarrow> busFactorScore c = 0.9) \<and>
   (257 \<le> c \<longrightarrow> busFactorScore c = 1.0)"
  by (simp add: busFactorScore_def)

text \<open>The table at the totals 1, 2, 0, 4, 5, 256 and 257.\<close>

theorem busFactorScore_step_table_witness:
  "busFactorScore 1 = 0.1 \<and> busFactorScore 2 = 0.2 \<and> busFactorScore 0 = 0.3 \<and>
   busFactorScore 4 = 0.3 \<and> busFactorScore 5 = 0.4 \<and> busFactorScore 256 = 0.9 \<and>
   busFactorScore 257 = 1.0"
  using busFactorScore_step_table [of 1] busFactorScore_step_table [of 2]
    busFactorScore_step_table [of 0] busFactorScore_step_table [of 4]
    busFactorScore_step_table [of 5] busFactorScore_step_table [of 256]
    busFactorScore_step_table [of 257]
  by simp

text \<open>
  C10. On positive totals the score never decreases: from \<open>1 \<le> c1 \<le> c2\<close> follows that the
  score of \<open>c1\<close> is at most the score of \<open>c2\<close>. The total 0 is outside: its score 0.3 is
  above the score 0.1 of the total 1.
\<close>

theorem busFactorScore_monotone:
  "(1 \<le> c1 \<and> c1 \<le> c2 \<longrightarrow> busFactorScore c1 \<le> busFactorScore c2) \<and>
   \<not> busFactorScore 0 \<le> busFactorScore 1"
  by (simp add: busFactorScore_def)

text \<open>The totals 2 and 300.\<close>

theorem busFactorScore_monotone_witness:
  "(1::nat) \<le> 2 \<and> (2::nat) \<le> 300 \<and> busFactorScore 2 \<le> busFactorScore 300 \<and>
   \<not> busFactorScore 0 \<le> busFactorScore 1"
  using busFactorScore_monotone [of 2 300] by simp

text \<open>
  C4. Let the server answer the requests for pages 1 to \<open>n\<close> with the lists \<open>pages\<close>, all
  but the last of them not shorter than 100, the last one shorter than 100 (it may be empty).
  Then the loop ends with the sum of the lengths as its total, having issued exactly the
  \<open>n\<close> requests for pages 1, 2, ..., \<open>n\<close> in this order, each with \<^verbatim>\<open>per_page\<close> 100, and
  \<^verbatim>\<open>getBusFactor\<close> returns the score of that total.
\<close>

theorem getBusFactor_pagination:
  assumes nonempty: "pages \<noteq> []"
    and served: "\<forall>i<length pages.
        axios_get (contributorsRequest (replace url ''https://github.com/'' []) (i + 1)) = Inr (pages ! i)"
    and full: "\<forall>i<length pages - 1. \<not> length (pages ! i) < PER_PAGE"
    and short: "length (last pages) < PER_PAGE"
  shows "contributorsLoop axios_get (replace url ''https://github.com/'' []) 0 1 [] =
           Some (Inr (sum_list (map length pages)),
                 map (contributorsRequest (replace url ''https://github.com/'' []))
                   [1..<length pages + 1]) \<and>
         getBusFactor axios_get url =
           Some \<lparr>returned = busFactorScore (sum_list (map length pages)),
                 requests = map (contributorsRequest (replace url ''https://github.com/'' []))
                   [1..<length pages + 1],
                 console = []\<rparr> \<and>
         map req_params
             (map (contributorsRequest (replace url ''https://github.com/'' [])) [1..<length pages + 1]) =
           map (\<lambda>page. [(''per_page'', 100), (''page'', page)]) [1..<length pages + 1]"
proof -
  have loop: "contributorsLoop axios_get (replace url ''https://github.com/'' []) 0 1 [] =
           Some (Inr (sum_list (map length pages)),
                 map (contributorsRequest (replace url ''https://github.com/'' []))
                   [1..<length pages + 1])"
    by (rule fetch_all_pages [OF nonempty served full short])
  then have "getBusFactor axios_get url =
           Some \<lparr>returned = busFactorScore (sum_list (map length pages)),
                 requests = map (contributorsRequest (replace url ''https://github.com/'' []))
                   [1..<length pages + 1],
                 console = []\<rparr>"
    by (simp add: getBusFactor_def)
  moreover have "map req_params
             (map (contributorsRequest (replace url ''https://github.com/'' [])) [1..<length pages + 1]) =
           map (\<lambda>page. [(''per_page'', 100), (''page'', page)]) [1..<length pages + 1]"
    by (simp add: contributorsRequest_def PER_PAGE_def)
  ultimately show ?thesis using loop by simp
qed

text \<open>
  Pages of 100, 100 and 50 contributors: the total is 250, three requests are issued, and
  the score is 0.9. An empty first page: the total is 0 after one request, and the score is
  0.3.
\<close>

theorem getBusFactor_pagination_witness:
  "getBusFactor
     (\<lambda>r. if r = contributorsRequest ''o/r'' 1 then Inr (replicate 100 ''u'')
          else if r = contributorsRequest ''o/r'' 2 then Inr (replicate 100 ''u'')
          else if r = contributorsRequest ''o/r'' 3 then Inr (replicate 50 ''u'')
          else Inr [])
     ''https://github.com/o/r'' =
   Some \<lparr>returned = 0.9,
         requests = [contributorsRequest ''o/r'' 1, contributorsRequest ''o/r'' 2,
                     contributorsRequest ''o/r'' 3],
         console = []\<rparr> \<and>
   contributorsLoop
     (\<lambda>r. if r = contributorsRequest ''o/r'' 1 then Inr (replicate 100 ''u'')
          else if r = contributorsRequest ''o/r'' 2 then Inr (replicate 100 ''u'')
          else if r = contributorsRequest ''o/r'' 3 then Inr (replicate 50 ''u'')
          else Inr [])
     ''o/r'' 0 1 [] =
   Some (Inr 250, [contributorsRequest ''o/r'' 1, contributorsRequest ''o/r'' 2,
                   contributorsRequest ''o/r'' 3]) \<and>
   getBusFactor (\<lambda>r. Inr ([] :: string list)) ''https://github.com/o/r'' =
     Some \<lparr>returned = 0.3, requests = [contributorsRequest ''o/r'' 1], console = []\<rparr>"
proof -
  let ?get = "\<lambda>r. if r = contributorsRequest ''o/r'' 1 then Inr (replicate 100 ''u'')
          else if r = contributorsRequest ''o/r'' 2 then Inr (replicate 100 ''u'')
          else if r = contributorsRequest ''o/r'' 3 then Inr (replicate 50 ''u'')
          else Inr []"
  let ?pages = "[replicate 100 ''u'', replicate 100 ''u'', replicate 50 ''u'']"
  have path: "replace ''https://github.com/o/r'' ''https://github.com/'' [] = ''o/r''"
    by (simp add: startsWith_def)
  have "?pages \<noteq> []" by simp
  moreover have "\<forall>i<length ?pages.
      ?get (contributorsRequest (replace ''https://github.com/o/r'' ''https://github.com/'' []) (i + 1))
        = Inr (?pages ! i)"
    unfolding path by (simp add: contributorsRequest_def less_Suc_eq numeral_3_eq_3)
  moreover have "\<forall>i<length ?pages - 1. \<not> length (?pages ! i) < PER_PAGE"
    by (simp add: PER_PAGE_def less_Suc_eq numeral_2_eq_2)
  moreover have "length (last ?pages) < PER_PAGE"
    by (simp add: PER_PAGE_def)
  ultimately have run: "contributorsLoop ?get ''o/r'' 0 1 [] =
           Some (Inr (sum_list (map length ?pages)),
                 map (contributorsRequest ''o/r'') [1..<length ?pages + 1]) \<and>
         getBusFactor ?get ''https://github.com/o/r'' =
           Some \<lparr>returned = busFactorScore (sum_list (map length ?pages)),
                 requests = map (contributorsRequest ''o/r'') [1..<length ?pages + 1],
                 console = []\<rparr>"
    using getBusFactor_pagination [of ?pages ?get "''https://github.com/o/r''"]
    unfolding path by blast
  have sent: "map (contributorsRequest ''o/r'') [1..<length ?pages + 1] =
      [contributorsRequest ''o/r'' 1, contributorsRequest ''o/r'' 2, contributorsRequest ''o/r'' 3]"
    by (simp add: upt_rec numeral_2_eq_2 numeral_3_eq_3)
  have tot: "sum_list (map length ?pages) = 250" by simp
  have "busFactorScore 250 = 0.9" by (simp add: busFactorScore_def)
  with run have three: "contributorsLoop ?get ''o/r'' 0 1 [] =
       Some (Inr 250, [contributorsRequest ''o/r'' 1, contributorsRequest ''o/r'' 2,
                       contributorsRequest ''o/r'' 3]) \<and>
     getBusFactor ?get ''https://github.com/o/r'' =
       Some \<lparr>returned = 0.9,
             requests = [contributorsRequest ''o/r'' 1, contributorsRequest ''o/r'' 2,
                         contributorsRequest ''o/r'' 3],
             console = []\<rparr>"
    unfolding sent tot by simp
  have "getBusFactor (\<lambda>r. Inr ([] :: string list)) ''https://github.com/o/r'' =
           Some \<lparr>returned = busFactorScore (sum_list (map length [[] :: string list])),
                 requests = map (contributorsRequest ''o/r'') [1..<length [[] :: string list] + 1],
                 console = []\<rparr>"
    using getBusFactor_pagination [of "[[]]" "\<lambda>r. Inr ([] :: string list)" "''https://github.com/o/r''"]
    unfolding path by (simp add: PER_PAGE_def)
  then have empty: "getBusFactor (\<lambda>r. Inr ([] :: string list)) ''https://github.com/o/r'' =
     Some \<lparr>returned = 0.3, requests = [contributorsRequest ''o/r'' 1], console = []\<rparr>"
    by (simp add: busFactorScore_def)
  from three empty show ?thesis by simp
qed

text \<open>
  C6. For every URL: when a request of the loop is rejected (the pages before it were all
  served and full, so the loop reached it), \<^verbatim>\<open>getBusFactor\<close> returns the value -1 after one
  call of \<^verbatim>\<open>console.error\<close>; the error does not leave the operation.
\<close>

theorem getBusFactor_request_failure:
  assumes served: "\<forall>i<length pages.
        axios_get (contributorsRequest (replace url ''https://github.com/'' []) (i + 1)) = Inr (pages ! i)"
    and full: "\<forall>i<length pages. \<not> length (pages ! i) < PER_PAGE"
    and rejected: "axios_get (contributorsRequest (replace url ''https://github.com/'' [])
        (length pages + 1)) = Inl message"
  shows "getBusFactor axios_get url =
           Some \<lparr>returned = - 1,
                 requests = map (contributorsRequest (replace url ''https://github.com/'' []))
                   [1..<length pages + 2],
                 console = [[''Error fetching contributors for GitHub repo '' @ url @ '':'', message]]\<rparr>"
proof -
  let ?repoPath = "replace url ''https://github.com/'' []"
  have a: "\<forall>i<length pages. axios_get (contributorsRequest ?repoPath (1 + i)) = Inr (pages ! i)
             \<and> PER_PAGE \<le> length (pages ! i)"
    using served full by (simp add: not_less)
  have b: "axios_get (contributorsRequest ?repoPath (1 + length pages)) = Inl message"
    using rejected by simp
  have "contributorsLoop axios_get ?repoPath 0 1 [] =
        contributorsLoop axios_get ?repoPath (0 + length (concat pages)) (1 + length pages)
           ([] @ map (contributorsRequest ?repoPath) [1..<1 + length pages])"
    by (rule contributorsLoop_full_pages [OF a])
  also have "\<dots> = Some (Inl message,
       ([] @ map (contributorsRequest ?repoPath) [1..<1 + length pages])
         @ [contributorsRequest ?repoPath (1 + length pages)])"
    by (rule contributorsLoop_rejected
          [of axios_get "replace url ''https://github.com/'' []" "1 + length pages" message, OF b])
  finally have "contributorsLoop axios_get ?repoPath 0 1 [] =
      Some (Inl message, map (contributorsRequest ?repoPath) [1..<length pages + 2])"
    by simp
  then show ?thesis by (simp add: getBusFactor_def)
qed

text \<open>A full first page, then a rejected request for page 2.\<close>

theorem getBusFactor_request_failure_witness:
  "getBusFactor
     (\<lambda>r. if r = contributorsRequest ''o/r'' 1 then Inr (replicate 100 ''u'')
          else Inl ''Request failed with status code 403'')
     ''https://github.com/o/r'' =
   Some \<lparr>returned = - 1,
         requests = [contributorsRequest ''o/r'' 1, contributorsRequest ''o/r'' 2],
         console = [[''Error fetching contributors for GitHub repo https://github.com/o/r:'',
                     ''Request failed with status code 403'']]\<rparr>"
proof -
  let ?get = "\<lambda>r. if r = contributorsRequest ''o/r'' 1 then Inr (replicate 100 ''u'')
          else Inl ''Request failed with status code 403''"
  let ?pages = "[replicate 100 ''u'']"
  have path: "replace ''https://github.com/o/r'' ''https://github.com/'' [] = ''o/r''"
    by (simp add: startsWith_def)
  have "\<forall>i<length ?pages.
      ?get (contributorsRequest (replace ''https://github.com/o/r'' ''https://github.com/'' []) (i + 1))
        = Inr (?pages ! i)"
    unfolding path by simp
  moreover have "\<forall>i<length ?pages. \<not> length (?pages ! i) < PER_PAGE"
    by (simp add: PER_PAGE_def)
  moreover have "?get (contributorsRequest (replace ''https://github.com/o/r'' ''https://github.com/'' [])
        (length ?pages + 1)) = Inl ''Request failed with status code 403''"
    unfolding path by (simp add: contributorsRequest_def)
  ultimately have run: "getBusFactor ?get ''https://github.com/o/r'' =
      Some \<lparr>returned = - 1,
            requests = map (contributorsRequest ''o/r'') [1..<length ?pages + 2],
            console = [[''Error fetching contributors for GitHub repo '' @ ''https://github.com/o/r''
               @ '':'', ''Request failed with status code 403'']]\<rparr>"
    using getBusFactor_request_failure [of ?pages ?get "''https://github.com/o/r''"
        "''Request failed with status code 403''"]
    unfolding path by blast
  have sent: "map (contributorsRequest ''o/r'') [1..<length ?pages + 2] =
      [contributorsRequest ''o/r'' 1, contributorsRequest ''o/r'' 2]"
    by (simp add: upt_rec numeral_2_eq_2 numeral_3_eq_3)
  from run show ?thesis unfolding sent by simp
qed

section \<open>Properties of the ramp-up metric\<close>

lemma split_not_Nil: "split s sep \<noteq> []"
  by (induction s) (simp_all add: Let_def)

lemma block_opener_not_line_comment: "startsWith s ''/*'' \<Longrightarrow> \<not> startsWith s ''//''"
  by (auto simp: startsWith_def)

text \<open>Inside a block comment that no line closes, every line is a comment line.\<close>

lemma fold_countLine_open_block:
  "\<forall>l\<in>set ls. \<not> endsWith (trim l) ''*/'' \<Longrightarrow>
     fold countLine ls (s, c, True) = (s, c + length ls, True)"
  by (induction ls arbitrary: c) simp_all

text \<open>
  C7. Take the first 100 lines of a file. When the first of them, trimmed, starts with
  \<^verbatim>\<open>/*\<close> and none of them, trimmed, ends with \<^verbatim>\<open>*/\<close>, every one of these lines, blank
  ones included, is counted as a comment line and no line is counted as code; there are at
  most 100 of them.
\<close>

theorem unclosed_block_comment_counts_every_line:
  assumes lines: "lines = take 100 (split fileContent CHR 0x0A)"
    and opens: "startsWith (trim (hd lines)) ''/*''"
    and unclosed: "\<forall>l\<in>set lines. \<not> endsWith (trim l) ''*/''"
  shows "countSlocAndCommentsLimited fileContent = \<lparr>sloc = 0, comments = length lines\<rparr> \<and>
         length lines \<le> 100"
proof -
  from lines have "lines \<noteq> []" by (simp add: split_not_Nil)
  then obtain first rest where cons: "lines = first # rest" by (cases lines) auto
  from opens cons have o: "startsWith (trim first) ''/*''" by simp
  from unclosed cons have u: "\<not> endsWith (trim first) ''*/''"
    and r: "\<forall>l\<in>set rest. \<not> endsWith (trim l) ''*/''" by simp_all
  have "countLine first (0, 0, False) = (0, 1, True)"
    using o u block_opener_not_line_comment [OF o] by simp
  then have "fold countLine lines (0, 0, False) = (0, length lines, True)"
    using fold_countLine_open_block [OF r, of 0 1] by (simp add: cons)
  then have "fold countLine (take 100 (split fileContent CHR 0x0A)) (0, 0, False) =
      (0, length lines, True)"
    by (simp only: lines)
  then show ?thesis
    using lines by (simp add: countSlocAndCommentsLimited_def)
qed

text \<open>
  Five lines, the first an opener that is never closed, the second blank, the last the
  empty line behind the final line feed; and an opener followed by 150 line feeds, of
  which the first 100 lines are counted.
\<close>

theorem unclosed_block_comment_counts_every_line_witness:
  "countSlocAndCommentsLimited ''/* header\<newline>\<newline>x = 1;\<newline>  // y\<newline>'' = \<lparr>sloc = 0, comments = 5\<rparr> \<and>
   countSlocAndCommentsLimited (''/*'' @ replicate 150 CHR 0x0A) = \<lparr>sloc = 0, comments = 100\<rparr>"
proof -
  let ?content = "''/* header\<newline>\<newline>x = 1;\<newline>  // y\<newline>''"
  let ?lines = "[''/* header'', [], ''x = 1;'', ''  // y'', []]"
  have l: "?lines = take 100 (split ?content CHR 0x0A)" by simp
  have o: "startsWith (trim (hd ?lines)) ''/*''"
    by (simp add: startsWith_def trim_def isSpace_def)
  have u: "\<forall>l\<in>set ?lines. \<not> endsWith (trim l) ''*/''"
    by (simp add: endsWith_def trim_def isSpace_def)
  let ?long = "''/*'' # replicate 99 []"
  have l': "?long = take 100 (split (''/*'' @ replicate 150 CHR 0x0A) CHR 0x0A)"
    by code_simp
  have o': "startsWith (trim (hd ?long)) ''/*''"
    by (simp add: startsWith_def trim_def isSpace_def)
  have u': "\<forall>l\<in>set ?long. \<not> endsWith (trim l) ''*/''"
    by (simp add: endsWith_def trim_def isSpace_def)
  show ?thesis
    using unclosed_block_comment_counts_every_line [OF l o u]
      unclosed_block_comment_counts_every_line [OF l' o' u']
    by simp
qed

text \<open>
  A line adds one to one of the two counters at most, so a file gives at most 100 in all,
  and the totals of a checkout are at most 100 times the number of files walked. They stay
  far below \<open>2 ^ 53\<close>, where doubles hold every count and the sums of lines 145 and 146
  exactly.
\<close>

lemma countLine_adds_one:
  "countLine line (s, c, b) = (s', c', b') \<Longrightarrow> s' + c' \<le> s + c + 1"
  by (auto simp: Let_def split: if_splits)

lemma fold_countLine_bound:
  "fold countLine ls (s, c, b) = (s', c', b') \<Longrightarrow> s' + c' \<le> s + c + length ls"
proof (induction ls arbitrary: s c b)
  case Nil
  then show ?case by simp
next
  case (Cons l ls)
  obtain s1 c1 b1 where step: "countLine l (s, c, b) = (s1, c1, b1)"
    by (metis prod_cases3)
  with Cons.prems have "fold countLine ls (s1, c1, b1) = (s', c', b')" by simp
  from Cons.IH [OF this] countLine_adds_one [OF step] show ?case by simp
qed

lemma counts_at_most_100:
  "sloc (countSlocAndCommentsLimited fileContent)
     + comments (countSlocAndCommentsLimited fileContent) \<le> 100"
proof -
  obtain s c b where f: "fold countLine (take 100 (split fileContent CHR 0x0A)) (0, 0, False) = (s, c, b)"
    by (metis prod_cases3)
  from fold_countLine_bound [OF this] have "s + c \<le> 100" by simp
  with f show ?thesis by (simp add: countSlocAndCommentsLimited_def)
qed

lemma totals_bounded:
  "totalCodeLines files + totalCommentLines files \<le> 100 * length (walkDirectoryLimited files)"
proof -
  have "sum_list (map (\<lambda>f. sloc (countSlocAndCommentsLimited f)) fs)
      + sum_list (map (\<lambda>f. comments (countSlocAndCommentsLimited f)) fs) \<le> 100 * length fs" for fs
  proof (induction fs)
    case Nil
    show ?case by simp
  next
    case (Cons f fs)
    with counts_at_most_100 [of f] show ?case by simp
  qed
  then show ?thesis .
qed

text \<open>Rounding moves a quotient by at most one half and stays next to the floor.\<close>

lemma roundHalfEven_near:
  assumes "0 < d"
  shows "\<bar>(of_int (roundHalfEven n d) :: rat) - of_int n / of_int d\<bar> \<le> 1 / 2"
proof -
  have lt: "n mod d < d" and ge: "0 \<le> n mod d" using assms by simp_all
  have q: "(of_int n :: rat) / of_int d = of_int (n div d) + of_int (n mod d) / of_int d"
  proof -
    have "n = (n div d) * d + n mod d" by simp
    then have "(of_int n :: rat) = of_int (n div d) * of_int d + of_int (n mod d)"
      by (metis of_int_add of_int_mult)
    then show ?thesis using assms by (simp add: field_simps)
  qed
  have d0: "(0::rat) < of_int d" using assms by simp
  have r0: "(0::rat) \<le> of_int (n mod d)" using ge by simp
  have r1: "(of_int (n mod d) :: rat) < of_int d" using lt by simp
  consider "2 * (n mod d) < d" | "d < 2 * (n mod d)" | "2 * (n mod d) = d" by linarith
  then show ?thesis
  proof cases
    case 1
    then have "roundHalfEven n d = n div d" by (simp add: roundHalfEven_def Let_def)
    moreover from 1 have "2 * (of_int (n mod d) :: rat) < of_int d"
      by (metis of_int_less_iff of_int_mult of_int_numeral)
    ultimately show ?thesis using d0 q r0 by (simp add: field_simps)
  next
    case 2
    then have "roundHalfEven n d = n div d + 1" by (simp add: roundHalfEven_def Let_def)
    moreover from 2 have "(of_int d :: rat) < 2 * of_int (n mod d)"
      by (metis of_int_less_iff of_int_mult of_int_numeral)
    ultimately show ?thesis using d0 q r1 by (simp add: field_simps abs_if)
  next
    case 3
    then have h: "2 * (of_int (n mod d) :: rat) = of_int d"
      by (metis of_int_mult of_int_numeral)
    from 3 have "roundHalfEven n d = n div d \<or> roundHalfEven n d = n div d + 1"
      by (simp add: roundHalfEven_def Let_def)
    then show ?thesis using d0 q h by (auto simp: field_simps abs_if)
  qed
qed

lemma roundHalfEven_range:
  assumes "0 < d"
  shows "n div d \<le> roundHalfEven n d \<and> roundHalfEven n d \<le> n div d + 1"
  by (simp add: roundHalfEven_def Let_def)

text \<open>
  Two positive integers of the same bit length are within a factor of two, so the scaled
  numerator lies between \<open>2 ^ 52\<close> and \<open>2 ^ 53\<close> times the scaled denominator.
\<close>

lemma same_bitlen_within_factor_two:
  assumes "0 < x" "0 < y" "bitlen x = bitlen y"
  shows "x < 2 * y"
proof -
  have "1 \<le> bitlen y" using assms(2) by (simp add: bitlen_alt_def)
  then have "(2::int) ^ nat (bitlen y) = 2 * 2 ^ nat (bitlen y - 1)"
    by (metis Suc_nat_eq_nat_zadd1 add.commute diff_add_cancel diff_ge_0_iff_ge power_Suc)
  moreover have "x < 2 ^ nat (bitlen y)" using bitlen_bounds [OF assms(1)] assms(3) by simp
  moreover have "2 ^ nat (bitlen y - 1) \<le> y" using bitlen_bounds [OF assms(2)] by simp
  ultimately show ?thesis by linarith
qed

lemma scaled_into_binade:
  fixes a b :: nat
  assumes a: "0 < a" and b: "0 < b"
  defines "up \<equiv> nat (52 + bitlen (int b) - bitlen (int a))"
    and "down \<equiv> nat (bitlen (int a) - (52 + bitlen (int b)))"
  defines "one \<equiv> (if int a * 2 ^ up < int b * 2 ^ down * 2 ^ 52 then 1 else 0 :: nat)"
  shows "int b * 2 ^ down * 2 ^ 52 \<le> int a * 2 ^ (up + one) \<and>
         int a * 2 ^ (up + one) < int b * 2 ^ down * 2 ^ 53"
proof -
  let ?x = "int a * 2 ^ up" and ?y = "int b * 2 ^ down * 2 ^ 52"
  have x: "0 < ?x" and y: "0 < ?y" using a b by simp_all
  have "bitlen ?x = bitlen (int a) + int up" using a by simp
  moreover have "bitlen ?y = bitlen (int b) + int down + 52"
  proof -
    have "?y = int b * 2 ^ (down + 52)" by (simp only: power_add mult.assoc)
    moreover have "bitlen (int b * 2 ^ (down + 52)) = bitlen (int b) + int (down + 52)"
      using b by (intro bitlen_pow2) simp
    ultimately have "bitlen ?y = bitlen (int b) + int (down + 52)" by (simp only:)
    then show ?thesis by simp
  qed
  ultimately have same: "bitlen ?x = bitlen ?y"
    by (simp add: up_def down_def)
  have xy: "?x < 2 * ?y" by (rule same_bitlen_within_factor_two [OF x y same])
  have yx: "?y < 2 * ?x" by (rule same_bitlen_within_factor_two [OF y x same [symmetric]])
  have p53: "int b * 2 ^ down * 2 ^ 53 = 2 * ?y" by simp
  show ?thesis
  proof (cases "?x < ?y")
    case True
    then have "one = 1" by (simp add: one_def)
    then have "int a * 2 ^ (up + one) = 2 * ?x" by simp
    with True yx p53 show ?thesis by linarith
  next
    case False
    then have "one = 0" by (simp add: one_def)
    then have "int a * 2 ^ (up + one) = ?x" by simp
    with False xy p53 show ?thesis by linarith
  qed
qed

text \<open>
  The nearest double of a positive quotient has a significand of 53 bits and is within half
  a unit in the last place, hence within the relative error \<open>2 ^ -53\<close>.
\<close>

lemma nearestDouble_scaled:
  fixes a b :: nat
  assumes a: "0 < a" and b: "0 < b"
  shows "\<exists>m k j. nearestDouble a b = of_int m * 2 ^ k / 2 ^ j \<and> 2 ^ 52 \<le> m \<and> m \<le> 2 ^ 53 \<and>
           \<bar>(of_int m :: rat) - (of_nat a / of_nat b) * 2 ^ j / 2 ^ k\<bar> \<le> 1 / 2 \<and>
           (2::rat) ^ 52 \<le> (of_nat a / of_nat b) * 2 ^ j / 2 ^ k"
proof -
  define up where "up = nat (52 + bitlen (int b) - bitlen (int a))"
  define down where "down = nat (bitlen (int a) - (52 + bitlen (int b)))"
  define one where "one = (if int a * 2 ^ up < int b * 2 ^ down * 2 ^ 52 then 1 else 0 :: nat)"
  define n where "n = int a * 2 ^ (up + one)"
  define d where "d = int b * 2 ^ down"
  define m where "m = roundHalfEven n d"
  have nd: "d * 2 ^ 52 \<le> n \<and> n < d * 2 ^ 53"
    using scaled_into_binade [OF a b] by (simp only: n_def d_def up_def down_def one_def)
  have d0: "0 < d" using b by (simp add: d_def)
  have val: "nearestDouble a b = of_int m * 2 ^ down / 2 ^ (up + one)"
    using a by (simp only: nearestDouble_def Let_def m_def n_def d_def up_def down_def one_def) simp
  have lo: "2 ^ 52 \<le> n div d"
  proof -
    have "2 ^ 52 * d \<le> n" using nd by (simp add: mult.commute)
    then have "2 ^ 52 * d div d \<le> n div d" by (rule zdiv_mono1) (rule d0)
    then show ?thesis using d0 by simp
  qed
  have hi: "n div d < 2 ^ 53"
  proof -
    have "n div d * d + n mod d = n" by simp
    moreover have "0 \<le> n mod d" using d0 by simp
    ultimately have "n div d * d \<le> n" by linarith
    moreover have "n < 2 ^ 53 * d" using nd by (simp only: mult.commute)
    ultimately have "n div d * d < 2 ^ 53 * d" by linarith
    then show ?thesis using d0 by (simp only: mult_less_cancel_right)
  qed
  have range: "2 ^ 52 \<le> m \<and> m \<le> 2 ^ 53"
    using roundHalfEven_range [OF d0, of n] lo hi by (simp add: m_def)
  have quot: "(of_nat a / of_nat b :: rat) * 2 ^ (up + one) / 2 ^ down = of_int n / of_int d"
    by (simp add: n_def d_def)
  have near: "\<bar>(of_int m :: rat) - (of_nat a / of_nat b) * 2 ^ (up + one) / 2 ^ down\<bar> \<le> 1 / 2"
    unfolding quot m_def by (rule roundHalfEven_near [OF d0])
  have big: "(2::rat) ^ 52 \<le> (of_nat a / of_nat b) * 2 ^ (up + one) / 2 ^ down"
  proof -
    have "(of_int (d * 2 ^ 52) :: rat) \<le> of_int n" using nd by (simp only: of_int_le_iff)
    then have "(of_int d :: rat) * 2 ^ 52 \<le> of_int n" by simp
    moreover have "(0::rat) < of_int d" using d0 by simp
    ultimately have "(2::rat) ^ 52 \<le> of_int n / of_int d"
      by (simp add: pos_le_divide_eq mult.commute)
    then show ?thesis by (simp only: quot)
  qed
  from val range near big show ?thesis by blast
qed

lemma nearestDouble_close:
  fixes a b :: nat
  assumes a: "0 < a" and b: "0 < b"
  shows "\<bar>nearestDouble a b - of_nat a / of_nat b\<bar> \<le> of_nat a / of_nat b / 2 ^ 53"
proof -
  from nearestDouble_scaled [OF a b] obtain m :: int and k j :: nat where
    v: "nearestDouble a b = of_int m * 2 ^ k / 2 ^ j"
    and near: "\<bar>(of_int m :: rat) - (of_nat a / of_nat b) * 2 ^ j / 2 ^ k\<bar> \<le> 1 / 2"
    and big: "(2::rat) ^ 52 \<le> (of_nat a / of_nat b) * 2 ^ j / 2 ^ k"
    by blast
  define q :: rat where "q = of_nat a / of_nat b"
  define s :: rat where "s = 2 ^ j / 2 ^ k"
  have s0: "0 < s" by (simp add: s_def)
  have near': "\<bar>of_int m - q * s\<bar> \<le> 1 / 2" using near by (simp add: q_def s_def)
  have big': "2 ^ 52 \<le> q * s" using big by (simp add: q_def s_def)
  have v': "nearestDouble a b = of_int m / s" using v by (simp add: s_def)
  have "\<bar>of_int m / s - q\<bar> = \<bar>of_int m - q * s\<bar> / s"
  proof -
    have "of_int m / s - q = (of_int m - q * s) / s" using s0 by (simp add: field_simps)
    then show ?thesis using s0 by simp
  qed
  also have "\<dots> \<le> (1 / 2) / s"
    by (rule divide_right_mono [OF near']) (use s0 in simp)
  also have "\<dots> \<le> (q * s / 2 ^ 53) / s"
  proof -
    have "(1::rat) / 2 \<le> q * s / 2 ^ 53" using big' by simp
    then show ?thesis by (rule divide_right_mono) (use s0 in simp)
  qed
  also have "\<dots> = q / 2 ^ 53" using s0 by simp
  finally show ?thesis by (simp only: v' q_def)
qed

lemma nearestDouble_error:
  fixes a b :: nat
  assumes b: "0 < b"
  shows "\<bar>nearestDouble a b - of_nat a / of_nat b\<bar> \<le> of_nat a / of_nat b / 2 ^ 53"
proof (cases "a = 0")
  case True
  then show ?thesis by (simp add: nearestDouble_def)
next
  case False
  then have "0 < a" by simp
  from nearestDouble_close [OF this b] show ?thesis .
qed

text \<open>The totals are the sums of the counts of the files walked.\<close>

lemma fold_addFile:
  "fold addFile contents (s, c) =
     (s + sum_list (map (\<lambda>f. sloc (countSlocAndCommentsLimited f)) contents),
      c + sum_list (map (\<lambda>f. comments (countSlocAndCommentsLimited f)) contents))"
  by (induction contents arbitrary: s c) (simp_all add: Let_def)

text \<open>The operation returns when \<^verbatim>\<open>README.md\<close> at the root is not a directory.\<close>

lemma calculateRampUpMetric_returns:
  assumes "\<forall>entries. map_of files ''README.md'' \<noteq> Some (Directory entries)"
  shows "calculateRampUpMetric files =
    Inr \<lparr>sloc = totalCodeLines files, comments = totalCommentLines files,
         ratio = divide_counts (totalCommentLines files) (totalCodeLines files)\<rparr>"
proof (cases "map_of files ''README.md''")
  case None
  then show ?thesis by (simp add: calculateRampUpMetric_def fold_addFile)
next
  case (Some node)
  with assms show ?thesis
    by (cases node) (simp_all add: calculateRampUpMetric_def fold_addFile)
qed

text \<open>
  C8, amended. When \<^verbatim>\<open>README.md\<close> at the root is a directory the operation throws and
  returns no ratio. In every other case it returns the totals over the walked files and the
  quotient of the two totals with no guard: when the total of code lines is zero the ratio
  is \<^verbatim>\<open>NaN\<close> if the total of comment lines is zero too and \<^verbatim>\<open>Infinity\<close> if that total is
  positive; when the total of code lines is positive the ratio is the double nearest to the
  total of comment lines divided by the total of code lines (ties to even), which is within
  the relative error \<open>2 ^ -53\<close> of the exact quotient and, when not zero, has a significand
  of 53 bits.
\<close>

theorem rampUp_ratio_unguarded:
  "(map_of files ''README.md'' = Some (Directory entries) \<longrightarrow>
      calculateRampUpMetric files = Inl ''EISDIR: illegal operation on a directory, read'') \<and>
   ((\<forall>entries. map_of files ''README.md'' \<noteq> Some (Directory entries)) \<longrightarrow>
      calculateRampUpMetric files =
        Inr \<lparr>sloc = totalCodeLines files, comments = totalCommentLines files,
             ratio =
               (if totalCodeLines files = 0
                then (if totalCommentLines files = 0 then NaN else Infinity)
                else Finite (nearestDouble (totalCommentLines files) (totalCodeLines files)))\<rparr>) \<and>
   (0 < totalCodeLines files \<longrightarrow>
      \<bar>nearestDouble (totalCommentLines files) (totalCodeLines files)
         - of_nat (totalCommentLines files) / of_nat (totalCodeLines files)\<bar>
        \<le> of_nat (totalCommentLines files) / of_nat (totalCodeLines files) / 2 ^ 53) \<and>
   (0 < totalCodeLines files \<and> 0 < totalCommentLines files \<longrightarrow>
      (\<exists>m k j. nearestDouble (totalCommentLines files) (totalCodeLines files)
                 = of_int m * 2 ^ k / 2 ^ j \<and> 2 ^ 52 \<le> m \<and> m \<le> 2 ^ 53))"
proof (intro conjI impI)
  assume "map_of files ''README.md'' = Some (Directory entries)"
  then show "calculateRampUpMetric files = Inl ''EISDIR: illegal operation on a directory, read''"
    by (simp add: calculateRampUpMetric_def split: prod.splits)
next
  assume "\<forall>entries. map_of files ''README.md'' \<noteq> Some (Directory entries)"
  from calculateRampUpMetric_returns [OF this]
  show "calculateRampUpMetric files =
        Inr \<lparr>sloc = totalCodeLines files, comments = totalCommentLines files,
             ratio =
               (if totalCodeLines files = 0
                then (if totalCommentLines files = 0 then NaN else Infinity)
                else Finite (nearestDouble (totalCommentLines files) (totalCodeLines files)))\<rparr>"
    by (simp add: divide_counts_def)
next
  assume pos: "0 < totalCodeLines files"
  show "\<bar>nearestDouble (totalCommentLines files) (totalCodeLines files)
         - of_nat (totalCommentLines files) / of_nat (totalCodeLines files)\<bar>
        \<le> of_nat (totalCommentLines files) / of_nat (totalCodeLines files) / 2 ^ 53"
    by (rule nearestDouble_error [OF pos])
next
  assume "0 < totalCodeLines files \<and> 0 < totalCommentLines files"
  then have "0 < totalCommentLines files" and "0 < totalCodeLines files" by simp_all
  from nearestDouble_scaled [OF this]
  show "\<exists>m k j. nearestDouble (totalCommentLines files) (totalCodeLines files)
                 = of_int m * 2 ^ k / 2 ^ j \<and> 2 ^ 52 \<le> m \<and> m \<le> 2 ^ 53"
    by blast
qed

text \<open>
  C8 as stated fails. A checkout whose only source file is one comment line has no code
  line, and its ratio is \<^verbatim>\<open>Infinity\<close>, not \<^verbatim>\<open>NaN\<close>. A checkout with one comment line and
  three code lines has the ratio 0.3333333333333333, the double
  \<open>6004799503160661 / 2 ^ 54\<close>, which is not one third. A checkout that holds nothing but
  a directory named \<^verbatim>\<open>README.md\<close> has no code line either, and no ratio is returned for it:
  the operation throws.
\<close>

theorem rampUp_ratio_NaN_counterexample:
  "calculateRampUpMetric [(''index.js'', File ''// entry point'')] =
     Inr \<lparr>sloc = 0, comments = 1, ratio = Infinity\<rparr> \<and>
   Infinity \<noteq> NaN \<and>
   calculateRampUpMetric [(''index.js'', File ''// entry point\<newline>a = 1;\<newline>b = 2;\<newline>c = 3;'')] =
     Inr \<lparr>sloc = 3, comments = 1, ratio = Finite (6004799503160661 / 18014398509481984)\<rparr> \<and>
   (6004799503160661 / 18014398509481984 :: rat) \<noteq> 1 / 3 \<and>
   calculateRampUpMetric [(''README.md'', Directory [])] =
     Inl ''EISDIR: illegal operation on a directory, read''"
  by code_simp

text \<open>
  A comment-only checkout, a checkout without source files, a checkout whose source file has
  60 code lines, 20 comment lines and 20 blank lines in its first 100 lines, and a checkout
  whose \<^verbatim>\<open>README.md\<close> is a directory.
\<close>

theorem rampUp_ratio_unguarded_witness:
  "calculateRampUpMetric [(''index.js'', File ''// entry point'')] =
     Inr \<lparr>sloc = 0, comments = 1, ratio = Infinity\<rparr> \<and>
   calculateRampUpMetric [(''notes.md'', File ''text'')] =
     Inr \<lparr>sloc = 0, comments = 0, ratio = NaN\<rparr> \<and>
   calculateRampUpMetric
     [(''README.md'', File ''# pkg''),
      (''src'', Directory
         [(''a.ts'', File (concat (replicate 60 ''x = 1;\<newline>'') @ concat (replicate 20 ''// c\<newline>'')
             @ replicate 19 CHR 0x0A))])] =
     Inr \<lparr>sloc = 60, comments = 20, ratio = Finite (6004799503160661 / 18014398509481984)\<rparr> \<and>
   calculateRampUpMetric [(''README.md'', Directory []), (''a.js'', File ''x = 1;'')] =
     Inl ''EISDIR: illegal operation on a directory, read''"
proof -
  let ?one = "[(''index.js'', File ''// entry point'')]"
  let ?none = "[(''notes.md'', File ''text'')]"
  let ?spec = "[(''README.md'', File ''# pkg''),
      (''src'', Directory
         [(''a.ts'', File (concat (replicate 60 ''x = 1;\<newline>'') @ concat (replicate 20 ''// c\<newline>'')
             @ replicate 19 CHR 0x0A))])]"
  let ?dir = "[(''README.md'', Directory []), (''a.js'', File ''x = 1;'')]"
  have a: "calculateRampUpMetric ?one = Inr \<lparr>sloc = 0, comments = 1, ratio = Infinity\<rparr>"
  proof -
    have readable: "\<forall>entries. map_of ?one ''README.md'' \<noteq> Some (Directory entries)" by simp
    have totals: "totalCodeLines ?one = 0" "totalCommentLines ?one = 1" by code_simp+
    from rampUp_ratio_unguarded [of ?one, THEN conjunct2, THEN conjunct1, THEN mp, OF readable]
    show ?thesis unfolding totals by simp
  qed
  have b: "calculateRampUpMetric ?none = Inr \<lparr>sloc = 0, comments = 0, ratio = NaN\<rparr>"
  proof -
    have readable: "\<forall>entries. map_of ?none ''README.md'' \<noteq> Some (Directory entries)" by simp
    have totals: "totalCodeLines ?none = 0" "totalCommentLines ?none = 0" by code_simp+
    from rampUp_ratio_unguarded [of ?none, THEN conjunct2, THEN conjunct1, THEN mp, OF readable]
    show ?thesis unfolding totals by simp
  qed
  have c: "calculateRampUpMetric ?spec =
     Inr \<lparr>sloc = 60, comments = 20, ratio = Finite (6004799503160661 / 18014398509481984)\<rparr>"
  proof -
    have readable: "\<forall>entries. map_of ?spec ''README.md'' \<noteq> Some (Directory entries)" by simp
    have totals: "totalCodeLines ?spec = 60" "totalCommentLines ?spec = 20" by code_simp+
    have double: "nearestDouble 20 60 = 6004799503160661 / 18014398509481984" by code_simp
    from rampUp_ratio_unguarded [of ?spec, THEN conjunct2, THEN conjunct1, THEN mp, OF readable]
    show ?thesis unfolding totals double by simp
  qed
  have d: "calculateRampUpMetric ?dir = Inl ''EISDIR: illegal operation on a directory, read''"
  proof -
    have "map_of ?dir ''README.md'' = Some (Directory [])" by simp
    from rampUp_ratio_unguarded [of ?dir "[]", THEN conjunct1, THEN mp, OF this]
    show ?thesis .
  qed
  from a b c d show ?thesis by (simp only: simp_thms)
qed

section \<open>Properties of the license check\<close>


lemma licenseTry_readme:
  assumes "resolveRepoPath w url = (Continues repoPath, sent)"
    and "licenseFromFiles w headers repoPath = (licenseInfo, sentFiles, logged)"
    and "\<not> truthy licenseInfo"
  shows "licenseTry w headers url =
    (case axios_get_content w (contentRequest headers repoPath ''readme'') of
       Inl message \<Rightarrow> (Inl message, sent @ sentFiles @ [contentRequest headers repoPath ''readme''], logged)
     | Inr content \<Rightarrow>
         (licenseVerdict (case extractLicenseFromReadme (base64_utf8 w content) of
                            Some found \<Rightarrow> JStr found | None \<Rightarrow> JStr []),
          sent @ sentFiles @ [contentRequest headers repoPath ''readme''], logged))"
  using assms by (simp add: licenseTry_def licenseFromReadme_def split: sum.splits)

text \<open>With a token the operation is the \<^verbatim>\<open>try\<close> block under its \<^verbatim>\<open>catch\<close>.\<close>

lemma checkLicenseCompatibility_token:
  assumes "GITHUB_TOKEN w = Some token" and "token \<noteq> []"
  shows "checkLicenseCompatibility w url =
    (case licenseTry w (licenseHeaders token) url of
                (Inr v, sent, logged) \<Rightarrow>
                  \<lparr>returned = v, requests = sent, console = logged\<rparr>
              | (Inl message, sent, logged) \<Rightarrow>
                  \<lparr>returned = \<lparr>score = 0, details = ''Error checking license: '' @ message\<rparr>,
                   requests = sent,
                   console = logged @ [[''Error checking license: '' @ message]]\<rparr>)"
  using assms by (simp add: checkLicenseCompatibility_def)

text \<open>The verdict on a non-empty text and on the empty one.\<close>

lemma licenseVerdict_text:
  "found \<noteq> [] \<Longrightarrow> licenseVerdict (JStr found) = Inr (licenseFound found)"
  by (simp add: licenseVerdict_def Let_def)

lemma licenseVerdict_empty:
  "licenseVerdict (JStr []) = Inr \<lparr>score = 0, details = ''No license information found''\<rparr>"
  by (simp add: licenseVerdict_def)


lemma run_decidedByReadme:
  assumes token: "GITHUB_TOKEN w = Some token" "token \<noteq> []"
    and path: "resolveRepoPath w url = (Continues repoPath, sent)"
    and files: "licenseFromFiles w (licenseHeaders token) repoPath = (licenseInfo, sentFiles, logged)"
    and noText: "\<not> truthy licenseInfo"
  shows "checkLicenseCompatibility w url = decidedByReadme w token repoPath (sent @ sentFiles) logged"
proof (cases "axios_get_content w (contentRequest (licenseHeaders token) repoPath ''readme'')")
  case (Inl message)
  with licenseTry_readme [OF path files noText] checkLicenseCompatibility_token [OF token, of url]
  show ?thesis by simp
next
  case (Inr content)
  show ?thesis
  proof (cases "extractLicenseFromReadme (base64_utf8 w content)")
    case None
    with Inr licenseTry_readme [OF path files noText]
      checkLicenseCompatibility_token [OF token, of url] licenseVerdict_empty
    show ?thesis by simp
  next
    case (Some found)
    show ?thesis
    proof (cases "found = []")
      case True
      with Some Inr licenseTry_readme [OF path files noText]
        checkLicenseCompatibility_token [OF token, of url] licenseVerdict_empty
      show ?thesis by simp
    next
      case False
      with Some Inr licenseTry_readme [OF path files noText]
        checkLicenseCompatibility_token [OF token, of url] licenseVerdict_text [OF False]
      show ?thesis by simp
    qed
  qed
qed

text \<open>What the files leave in \<^verbatim>\<open>licenseInfo\<close>.\<close>

lemma files_license_served:
  assumes "axios_get_content w (contentRequest headers repoPath ''contents/LICENSE'') = Inr content"
  shows "licenseFromFiles w headers repoPath =
    (JStr (base64_utf8 w content), [contentRequest headers repoPath ''contents/LICENSE''], [])"
  using assms by (simp add: licenseFromFiles_def)

lemma files_license_rejected:
  assumes "axios_get_content w (contentRequest headers repoPath ''contents/LICENSE'') = Inl message"
  shows "licenseFromFiles w headers repoPath =
    (fst (manifestLicense w (contentRequest headers repoPath ''contents/package.json'')),
     [contentRequest headers repoPath ''contents/LICENSE'',
      contentRequest headers repoPath ''contents/package.json''],
     snd (manifestLicense w (contentRequest headers repoPath ''contents/package.json'')))"
  using assms by (simp add: licenseFromFiles_def split: prod.splits)


lemma manifest_without_license:
  assumes "axios_get_content w req = Inr manifest"
    and "JSON_parse w (base64_utf8 w manifest) = Inr parsed" and "parsed \<noteq> JNull"
    and "\<forall>properties v. parsed = JObj properties \<and> map_of properties ''license'' = Some v
            \<longrightarrow> \<not> truthy v"
  shows "manifestLicense w req = (JStr [], [])"
  using assms by (cases parsed) (auto simp: manifestLicense_def split: option.splits)
















text \<open>
  C9. With a token and a repository path: when the request for \<^verbatim>\<open>LICENSE\<close> succeeds and
  the file decodes to the empty string, and when the request for \<^verbatim>\<open>LICENSE\<close> is rejected
  and the manifest parses to an object whose \<^verbatim>\<open>license\<close> property is absent or the empty
  string, resolution does not stop: the README is requested next, as the last request, and
  the run is decided by the README alone (its License section gives the verdict, a README
  without one gives \<^verbatim>\<open>No license information found\<close>, a rejected request gives the error).
\<close>

theorem empty_text_falls_through_to_readme:
  assumes token: "GITHUB_TOKEN w = Some token" "token \<noteq> []"
    and path: "resolveRepoPath w url = (Continues repoPath, sent)"
  shows
    "(axios_get_content w (contentRequest (licenseHeaders token) repoPath ''contents/LICENSE'')
        = Inr content \<and> base64_utf8 w content = [] \<longrightarrow>
      checkLicenseCompatibility w url =
        decidedByReadme w token repoPath
          (sent @ [contentRequest (licenseHeaders token) repoPath ''contents/LICENSE'']) [] \<and>
      requests (checkLicenseCompatibility w url) =
        sent @ [contentRequest (licenseHeaders token) repoPath ''contents/LICENSE'',
                contentRequest (licenseHeaders token) repoPath ''readme'']) \<and>
     (axios_get_content w (contentRequest (licenseHeaders token) repoPath ''contents/LICENSE'')
        = Inl message \<and>
      axios_get_content w (contentRequest (licenseHeaders token) repoPath ''contents/package.json'')
        = Inr manifest \<and>
      JSON_parse w (base64_utf8 w manifest) = Inr (JObj properties) \<and>
      (map_of properties ''license'' = None \<or> map_of properties ''license'' = Some (JStr [])) \<longrightarrow>
      checkLicenseCompatibility w url =
        decidedByReadme w token repoPath
          (sent @ [contentRequest (licenseHeaders token) repoPath ''contents/LICENSE'',
                   contentRequest (licenseHeaders token) repoPath ''contents/package.json'']) [] \<and>
      requests (checkLicenseCompatibility w url) =
        sent @ [contentRequest (licenseHeaders token) repoPath ''contents/LICENSE'',
                contentRequest (licenseHeaders token) repoPath ''contents/package.json'',
                contentRequest (licenseHeaders token) repoPath ''readme''])"
proof (intro conjI impI)
  let ?h = "licenseHeaders token"
  assume a: "axios_get_content w (contentRequest ?h repoPath ''contents/LICENSE'') = Inr content
      \<and> base64_utf8 w content = []"
  then have files: "licenseFromFiles w ?h repoPath =
      (JStr [], [contentRequest ?h repoPath ''contents/LICENSE''], [])"
    using files_license_served [of w ?h repoPath content] by simp
  have none: "\<not> truthy (JStr [])" by simp
  show run: "checkLicenseCompatibility w url =
      decidedByReadme w token repoPath (sent @ [contentRequest ?h repoPath ''contents/LICENSE'']) []"
    by (rule run_decidedByReadme [OF token path files none])
  show "requests (checkLicenseCompatibility w url) =
      sent @ [contentRequest ?h repoPath ''contents/LICENSE'', contentRequest ?h repoPath ''readme'']"
    unfolding run by (simp split: sum.splits)
next
  let ?h = "licenseHeaders token"
  assume a: "axios_get_content w (contentRequest ?h repoPath ''contents/LICENSE'') = Inl message \<and>
      axios_get_content w (contentRequest ?h repoPath ''contents/package.json'') = Inr manifest \<and>
      JSON_parse w (base64_utf8 w manifest) = Inr (JObj properties) \<and>
      (map_of properties ''license'' = None \<or> map_of properties ''license'' = Some (JStr []))"
  then have "manifestLicense w (contentRequest ?h repoPath ''contents/package.json'') = (JStr [], [])"
    by (intro manifest_without_license [of w _ manifest "JObj properties"]) auto
  with a have files: "licenseFromFiles w ?h repoPath =
      (JStr [], [contentRequest ?h repoPath ''contents/LICENSE'',
                 contentRequest ?h repoPath ''contents/package.json''], [])"
    using files_license_rejected [of w ?h repoPath message] by simp
  have none: "\<not> truthy (JStr [])" by simp
  show run: "checkLicenseCompatibility w url =
      decidedByReadme w token repoPath
        (sent @ [contentRequest ?h repoPath ''contents/LICENSE'',
                 contentRequest ?h repoPath ''contents/package.json'']) []"
    by (rule run_decidedByReadme [OF token path files none])
  show "requests (checkLicenseCompatibility w url) =
      sent @ [contentRequest ?h repoPath ''contents/LICENSE'',
              contentRequest ?h repoPath ''contents/package.json'',
              contentRequest ?h repoPath ''readme'']"
    unfolding run by (simp split: sum.splits)
qed


text \<open>
  C5. Without a token (the variable is not set, or set to the empty string) the operation
  returns score 0 with \<^verbatim>\<open>GitHub token not set\<close> for every URL, and it issues no request.
\<close>

theorem no_token_no_requests:
  assumes "GITHUB_TOKEN w = None \<or> GITHUB_TOKEN w = Some []"
  shows "checkLicenseCompatibility w url =
           \<lparr>returned = \<lparr>score = 0, details = ''GitHub token not set''\<rparr>,
            requests = [], console = []\<rparr>"
  using assms by (auto simp: checkLicenseCompatibility_def)

text \<open>A GitHub URL without a token, and an npm URL with the empty token.\<close>

theorem no_token_no_requests_witness:
  "checkLicenseCompatibility worldWithoutToken ''https://github.com/o/r'' =
     \<lparr>returned = \<lparr>score = 0, details = ''GitHub token not set''\<rparr>, requests = [], console = []\<rparr> \<and>
   checkLicenseCompatibility (worldWithoutToken\<lparr>GITHUB_TOKEN := Some []\<rparr>)
       ''https://www.npmjs.com/package/foo'' =
     \<lparr>returned = \<lparr>score = 0, details = ''GitHub token not set''\<rparr>, requests = [], console = []\<rparr>"
proof -
  have "GITHUB_TOKEN worldWithoutToken = None \<or> GITHUB_TOKEN worldWithoutToken = Some []"
    by (simp add: worldWithoutToken_def)
  moreover have "GITHUB_TOKEN (worldWithoutToken\<lparr>GITHUB_TOKEN := Some []\<rparr>) = None \<or>
      GITHUB_TOKEN (worldWithoutToken\<lparr>GITHUB_TOKEN := Some []\<rparr>) = Some []"
    by simp
  ultimately show ?thesis
    using no_token_no_requests [of worldWithoutToken "''https://github.com/o/r''"]
      no_token_no_requests [of "worldWithoutToken\<lparr>GITHUB_TOKEN := Some []\<rparr>"
        "''https://www.npmjs.com/package/foo''"]
    by blast
qed


text \<open>
  An empty \<^verbatim>\<open>LICENSE\<close> file in front of a README without a License section, and a
  manifest without a \<^verbatim>\<open>license\<close> property in front of a README with one.
\<close>

theorem empty_text_falls_through_to_readme_witness:
  "checkLicenseCompatibility worldEmptyLicense ''https://github.com/o/r'' =
     \<lparr>returned = \<lparr>score = 0, details = ''No license information found''\<rparr>,
      requests =
        [contentRequest (licenseHeaders ''ghp_token'') ''o/r'' ''contents/LICENSE'',
         contentRequest (licenseHeaders ''ghp_token'') ''o/r'' ''readme''],
      console = []\<rparr> \<and>
   checkLicenseCompatibility worldReadmeLicense ''https://github.com/o/r'' =
     \<lparr>returned = \<lparr>score = 1, details = ''License found: Apache-2.0. Compatible: true''\<rparr>,
      requests =
        [contentRequest (licenseHeaders ''ghp_token'') ''o/r'' ''contents/LICENSE'',
         contentRequest (licenseHeaders ''ghp_token'') ''o/r'' ''contents/package.json'',
         contentRequest (licenseHeaders ''ghp_token'') ''o/r'' ''readme''],
      console = []\<rparr>"
proof -
  let ?url = "''https://github.com/o/r''"
  let ?h = "licenseHeaders ''ghp_token''"
  let ?L = "contentRequest ?h ''o/r'' ''contents/LICENSE''"
  let ?P = "contentRequest ?h ''o/r'' ''contents/package.json''"
  have t1: "GITHUB_TOKEN worldEmptyLicense = Some ''ghp_token''"
    and t2: "GITHUB_TOKEN worldReadmeLicense = Some ''ghp_token''"
    by (simp_all add: worldReadmeLicense_def worldEmptyLicense_def)
  have ne: "''ghp_token'' \<noteq> []" by simp
  have p1: "resolveRepoPath worldEmptyLicense ?url = (Continues ''o/r'', [])"
    and p2: "resolveRepoPath worldReadmeLicense ?url = (Continues ''o/r'', [])"
    by code_simp+
  have e: "axios_get_content worldEmptyLicense ?L = Inr [] \<and> base64_utf8 worldEmptyLicense [] = []"
    by code_simp
  have m: "axios_get_content worldReadmeLicense ?L = Inl ''Request failed with status code 404'' \<and>
      axios_get_content worldReadmeLicense ?P = Inr ''e30='' \<and>
      JSON_parse worldReadmeLicense (base64_utf8 worldReadmeLicense ''e30='') = Inr (JObj []) \<and>
      (map_of [] ''license'' = (None :: json option) \<or> map_of [] ''license'' = Some (JStr []))"
    by code_simp
  have r1: "decidedByReadme worldEmptyLicense ''ghp_token'' ''o/r'' ([] @ [?L]) [] =
     \<lparr>returned = \<lparr>score = 0, details = ''No license information found''\<rparr>,
      requests = [?L, contentRequest ?h ''o/r'' ''readme''], console = []\<rparr>"
    by code_simp
  have r2: "decidedByReadme worldReadmeLicense ''ghp_token'' ''o/r'' ([] @ [?L, ?P]) [] =
     \<lparr>returned = \<lparr>score = 1, details = ''License found: Apache-2.0. Compatible: true''\<rparr>,
      requests = [?L, ?P, contentRequest ?h ''o/r'' ''readme''], console = []\<rparr>"
    by code_simp
  from empty_text_falls_through_to_readme [OF t1 ne p1, where content = "[]"] e
  have "checkLicenseCompatibility worldEmptyLicense ?url =
      decidedByReadme worldEmptyLicense ''ghp_token'' ''o/r'' ([] @ [?L]) []"
    by blast
  then have a: "checkLicenseCompatibility worldEmptyLicense ?url =
     \<lparr>returned = \<lparr>score = 0, details = ''No license information found''\<rparr>,
      requests = [?L, contentRequest ?h ''o/r'' ''readme''], console = []\<rparr>"
    by (simp only: r1)
  from empty_text_falls_through_to_readme [OF t2 ne p2,
      where message = "''Request failed with status code 404''" and manifest = "''e30=''"
        and properties = "[]"] m
  have "checkLicenseCompatibility worldReadmeLicense ?url =
      decidedByReadme worldReadmeLicense ''ghp_token'' ''o/r'' ([] @ [?L, ?P]) []"
    by blast
  then have b: "checkLicenseCompatibility worldReadmeLicense ?url =
     \<lparr>returned = \<lparr>score = 1, details = ''License found: Apache-2.0. Compatible: true''\<rparr>,
      requests = [?L, ?P, contentRequest ?h ''o/r'' ''readme''], console = []\<rparr>"
    by (simp only: r2)
  from a b show ?thesis by (simp only: simp_thms)
qed


text \<open>
  C3. The claim's condition and the code part on the text \<^verbatim>\<open>BSD 2 Clause License\<close>: the
  text contains the allow-list name BSD-2-Clause with its hyphens read as spaces, yet
  \<^verbatim>\<open>isCompatibleWithLGPLv2_1\<close> is false on it and the operation returns score 0, because
  \<^verbatim>\<open>replace('-', ' ')\<close> turns only the first hyphen of the name into a space.
\<close>

theorem hyphens_only_first_replaced:
  "spec_containsAllowed ''BSD 2 Clause License\<newline>'' \<and>
   \<not> isCompatibleWithLGPLv2_1 ''BSD 2 Clause License\<newline>'' \<and>
   returned (checkLicenseCompatibility worldBsdLicense ''https://github.com/o/r'') =
     \<lparr>score = 0, details = ''License found: BSD 2 Clause License. Compatible: false''\<rparr> \<and>
   replace (toLowerCase ''BSD-2-Clause'') ''-'' '' '' = ''bsd 2-clause''"
  by code_simp

end
